theory Spec2Isabelle
  imports Main "HOL-Library.Char_ord" "HOL-Library.List_Lexorder"
begin

section \<open>Python built-ins used by the views\<close>

text \<open>
  Exceptions that leave a view uncaught.  \<open>ValueError\<close> is what \<open>int(q)\<close> raises on a
  string that is not an integer literal; \<open>MultipleObjectsReturned\<close> is what the ORM's
  \<open>get\<close> raises when a lookup matches more than one row.
\<close>

datatype exn = ValueError | MultipleObjectsReturned

text \<open>
  \<open>str.split(',')\<close>: the pieces between the commas, in order.  A string with \<open>n\<close> commas
  has \<open>n + 1\<close> pieces, so the empty string splits into one empty piece.
\<close>

fun split_on :: "char \<Rightarrow> string \<Rightarrow> string list" where
  "split_on c [] = [[]]"
| "split_on c (x # xs) =
     (if x = c then [] # split_on c xs
      else (case split_on c xs of
              [] \<Rightarrow> [[x]]
            | p # ps \<Rightarrow> (x # p) # ps))"

text \<open>
  Strings are Python's text in UTF-8, one \<open>char\<close> a byte, so an ASCII character is one
  \<open>char\<close> below 128 and every other character is a run of bytes from 128 up.  Two things
  about \<open>int(s)\<close> are the interpreter's and not the program's: the limit on the number of
  digits a string may have (\<open>sys.get_int_max_str_digits()\<close>, 4300 by default in newer
  interpreters, 0 for none), and what \<open>int\<close> makes of a string with characters outside
  ASCII, which follows the interpreter's Unicode tables of white space and decimal
  digits.  Both are parameters of the model.
\<close>

record python =
  int_max_str_digits :: nat
  unicode_int :: "string \<Rightarrow> int option"

definition is_ascii :: "char \<Rightarrow> bool" where
  "is_ascii c = (of_char c < (128::nat))"

text \<open>
  \<open>int(s)\<close> on a string of ASCII characters, base ten: surrounding white space is
  skipped, one sign is allowed, and the digits may be grouped by single underscores
  (\<open>1_000\<close>).  A string of more than 640 digits is refused when the interpreter has a
  digit limit and the string exceeds it.  Everything refused raises \<open>ValueError\<close>, which
  is \<open>None\<close> here.
\<close>

definition is_space :: "char \<Rightarrow> bool" where
  "is_space c = (c \<in> set [CHR 0x09, CHR 0x0A, CHR 0x0B, CHR 0x0C, CHR 0x0D, CHR 0x20])"

definition is_digit :: "char \<Rightarrow> bool" where
  "is_digit c = (c \<in> set ''0123456789'')"

definition digit_val :: "char \<Rightarrow> int" where
  "digit_val c = int (of_char c) - 48"

definition strip :: "string \<Rightarrow> string" where
  "strip s = rev (dropWhile is_space (rev (dropWhile is_space s)))"

fun parse_digits :: "int \<Rightarrow> string \<Rightarrow> int option" where
  "parse_digits acc [] = Some acc"
| "parse_digits acc [c] = (if is_digit c then Some (acc * 10 + digit_val c) else None)"
| "parse_digits acc (c # d # ds) =
     (if is_digit c then parse_digits (acc * 10 + digit_val c) (d # ds)
      else if c = CHR ''_'' \<and> is_digit d then parse_digits (acc * 10 + digit_val d) ds
      else None)"

definition over_limit :: "nat \<Rightarrow> string \<Rightarrow> bool" where
  "over_limit limit body =
     (let digits = length (filter is_digit body)
      in 640 < digits \<and> 0 < limit \<and> limit < digits)"

definition ascii_int :: "nat \<Rightarrow> string \<Rightarrow> int option" where
  "ascii_int limit s =
     (let t = strip s;
          neg = (case t of [] \<Rightarrow> False | c # _ \<Rightarrow> c = CHR ''-'');
          body = (case t of [] \<Rightarrow> []
                  | c # r \<Rightarrow> if c = CHR ''-'' \<or> c = CHR ''+'' then r else t)
      in case body of
           [] \<Rightarrow> None
         | c # cs \<Rightarrow>
             if is_digit c \<and> \<not> over_limit limit body
             then map_option (\<lambda>n. if neg then - n else n) (parse_digits (digit_val c) cs)
             else None)"

text \<open>\<open>int(s)\<close>: the ASCII reading where it applies, the interpreter's tables elsewhere.\<close>

definition py_int :: "python \<Rightarrow> string \<Rightarrow> int option" where
  "py_int py s =
     (if list_all is_ascii s then ascii_int (int_max_str_digits py) s else unicode_int py s)"

text \<open>The list comprehension \<open>[int(q) for q in ...]\<close>: the first failing conversion
  aborts the whole comprehension.\<close>

fun ints_of :: "python \<Rightarrow> string list \<Rightarrow> exn + int list" where
  "ints_of py [] = Inr []"
| "ints_of py (q # qs) =
     (case py_int py q of
        None \<Rightarrow> Inl ValueError
      | Some n \<Rightarrow> (case ints_of py qs of Inl e \<Rightarrow> Inl e | Inr ns \<Rightarrow> Inr (n # ns)))"

text \<open>Truthiness of \<open>query_params.get(key)\<close>: \<open>None\<close> and the empty string are false.\<close>

definition truthy :: "string option \<Rightarrow> bool" where
  "truthy p = (case p of None \<Rightarrow> False | Some s \<Rightarrow> s \<noteq> [])"

section \<open>The stores\<close>

text \<open>
  Modelled from the spec: \<open>core/models.py\<close> is not among the sources, so the tables follow
  section 3 of the specification and the fields the tests read and write.  A tag or an
  ingredient is a label row \<open>(id, user, name)\<close>; a recipe row carries its owner and its
  scalar fields, the price in hundredths; the two many-to-many relations are join tables
  of \<open>(recipe id, label id)\<close> rows.  Each table has the sequence that hands out its
  auto-incrementing primary key.  The image field holds the stored file's content, the
  storage path being left to the framework.
\<close>

record label =
  l_id :: int
  l_user :: int
  l_name :: string

record recipe =
  r_id :: int
  r_user :: int
  r_title :: string
  r_time_minutes :: int
  r_price :: int
  r_description :: string
  r_link :: string
  r_image :: "string option"

record db =
  recipes :: "recipe list"
  tags :: "label list"
  ingredients :: "label list"
  recipe_tags :: "(int \<times> int) list"
  recipe_ingredients :: "(int \<times> int) list"
  recipe_seq :: int
  tag_seq :: int
  ingredient_seq :: int

text \<open>The primary-key discipline of the store: ids are unique within a table and lie
  below the table's sequence.\<close>

definition pk_ok :: "('a \<Rightarrow> int) \<Rightarrow> 'a list \<Rightarrow> int \<Rightarrow> bool" where
  "pk_ok key rows seq = (distinct (map key rows) \<and> list_all (\<lambda>x. key x < seq) rows)"

definition wf_db :: "db \<Rightarrow> bool" where
  "wf_db d =
     (pk_ok r_id (recipes d) (recipe_seq d) \<and>
      pk_ok l_id (tags d) (tag_seq d) \<and>
      pk_ok l_id (ingredients d) (ingredient_seq d))"

text \<open>Inserting a recipe: the row is stored under the next id of the sequence, whatever
  id it was built with.\<close>

definition insert_recipe :: "recipe \<Rightarrow> db \<Rightarrow> db \<times> recipe" where
  "insert_recipe r d =
     (let r' = r\<lparr>r_id := recipe_seq d\<rparr>
      in (d\<lparr>recipes := recipes d @ [r'], recipe_seq := recipe_seq d + 1\<rparr>, r'))"

section \<open>Query sets\<close>

text \<open>
  A query set is the list of rows its SQL statement returns.  A filter across a
  many-to-many relation is an inner join with the join table, so a row comes back once
  for every join row that matches; \<open>order_by('-k')\<close> sorts in descending order of
  \<open>k\<close>; \<open>distinct()\<close> removes repeated rows.
\<close>

definition filter_m2m_in :: "('a \<Rightarrow> int) \<Rightarrow> (int \<times> int) list \<Rightarrow> int list \<Rightarrow> 'a list \<Rightarrow> 'a list" where
  "filter_m2m_in key links ids qs =
     [r. r \<leftarrow> qs, lk \<leftarrow> links, fst lk = key r \<and> snd lk \<in> set ids]"


definition order_by_desc :: "('a \<Rightarrow> 'k::linorder) \<Rightarrow> 'a list \<Rightarrow> 'a list" where
  "order_by_desc k qs = rev (sort_key k qs)"

definition distinct_rows :: "'a list \<Rightarrow> 'a list" where
  "distinct_rows qs = remdups qs"

section \<open>RecipeViewSet\<close>

text \<open>\<open>_params_to_ints\<close>: \<open>[int(q) for q in qs.split(',')]\<close>.\<close>

definition params_to_ints :: "python \<Rightarrow> string \<Rightarrow> exn + int list" where
  "params_to_ints py qs = ints_of py (split_on CHR '','' qs)"

text \<open>
  \<open>RecipeViewSet.get_queryset\<close>, with \<open>u\<close> for \<open>self.request.user\<close> and \<open>qp\<close> for
  \<open>self.request.query_params\<close>.  The conversions run when the method runs, so their
  \<open>ValueError\<close> leaves the method.
\<close>

definition get_queryset :: "python \<Rightarrow> db \<Rightarrow> int \<Rightarrow> (string \<rightharpoonup> string) \<Rightarrow> exn + recipe list" where
  "get_queryset py d u qp =
     (let tags = qp ''tags'';
          ingredients = qp ''ingredients'';
          queryset = recipes d
      in case (if truthy tags
               then (case params_to_ints py (the tags) of
                       Inl e \<Rightarrow> Inl e
                     | Inr tag_id \<Rightarrow> Inr (filter_m2m_in r_id (recipe_tags d) tag_id queryset))
               else Inr queryset) of
           Inl e \<Rightarrow> Inl e
         | Inr queryset \<Rightarrow>
             (case (if truthy ingredients
                    then (case params_to_ints py (the ingredients) of
                            Inl e \<Rightarrow> Inl e
                          | Inr ingre_id \<Rightarrow>
                              Inr (filter_m2m_in r_id (recipe_ingredients d) ingre_id queryset))
                    else Inr queryset) of
                Inl e \<Rightarrow> Inl e
              | Inr queryset \<Rightarrow>
                  Inr (distinct_rows
                         (order_by_desc r_id (filter (\<lambda>r. r_user r = u) queryset)))))"

text \<open>
  The generic view's \<open>get_object\<close>: the row of \<open>get_queryset()\<close> whose primary key is the
  one in the URL.  No row is the framework's \<open>Http404\<close> (\<open>None\<close> here), several rows are
  \<open>MultipleObjectsReturned\<close>.
\<close>

definition get_object :: "python \<Rightarrow> db \<Rightarrow> int \<Rightarrow> (string \<rightharpoonup> string) \<Rightarrow> int \<Rightarrow> exn + recipe option" where
  "get_object py d u qp pk =
     (case get_queryset py d u qp of
        Inl e \<Rightarrow> Inl e
      | Inr qs \<Rightarrow>
          (case filter (\<lambda>r. r_id r = pk) qs of
             [] \<Rightarrow> Inr None
           | [r] \<Rightarrow> Inr (Some r)
           | _ \<Rightarrow> Inl MultipleObjectsReturned))"

text \<open>
  Requests, responses and the actions a router maps onto the view set.  A view returns
  the response with the store after the request, or the exception that ended the request
  (\<open>Inl\<close>), in which case nothing was written.
\<close>

record request =
  req_user :: "int option"
  query_params :: "string \<rightharpoonup> string"

datatype body =
    Recipes "recipe list"
  | Detail recipe
  | Labels "label list"
  | LabelDetail label
  | Errors
  | Empty

datatype response = Response nat body

datatype 'p action =
    List
  | Create 'p
  | Retrieve int
  | Update int 'p
  | PartialUpdate int 'p
  | Destroy int
  | UploadImage int string

text \<open>
  The serializer module is not among the sources, so a view takes its serializer as a
  parameter: the validity check (with the \<open>partial\<close> flag of a PATCH) and the two save
  operations, each given the authenticated user of the request context.
\<close>

record 'p serializer =
  is_valid :: "bool \<Rightarrow> 'p \<Rightarrow> bool"
  create :: "db \<Rightarrow> int \<Rightarrow> 'p \<Rightarrow> db \<times> recipe"
  update :: "db \<Rightarrow> int \<Rightarrow> recipe \<Rightarrow> 'p \<Rightarrow> db \<times> recipe"

text \<open>Deleting a recipe removes its row and, by cascade, its join rows.\<close>

definition delete_recipe :: "recipe \<Rightarrow> db \<Rightarrow> db" where
  "delete_recipe r d =
     d\<lparr>recipes := filter (\<lambda>x. r_id x \<noteq> r_id r) (recipes d),
       recipe_tags := filter (\<lambda>lk. fst lk \<noteq> r_id r) (recipe_tags d),
       recipe_ingredients := filter (\<lambda>lk. fst lk \<noteq> r_id r) (recipe_ingredients d)\<rparr>"

text \<open>Saving an instance writes its row back under its primary key.\<close>

definition save_recipe :: "recipe \<Rightarrow> db \<Rightarrow> db" where
  "save_recipe r d = d\<lparr>recipes := map (\<lambda>x. if r_id x = r_id r then r else x) (recipes d)\<rparr>"

text \<open>
  \<open>upload_image\<close>: the recipe is resolved through \<open>get_object\<close>; a valid payload is saved
  into the image field and answered with 200, an invalid one with 400.  Whether a payload
  decodes as an image is the image serializer's check, the parameter \<open>is_image\<close>.
\<close>

definition upload_image ::
  "python \<Rightarrow> (string \<Rightarrow> bool) \<Rightarrow> db \<Rightarrow> int \<Rightarrow> (string \<rightharpoonup> string) \<Rightarrow> int \<Rightarrow> string \<Rightarrow> exn + response \<times> db" where
  "upload_image py is_image d u qp pk data =
     (case get_object py d u qp pk of
        Inl e \<Rightarrow> Inl e
      | Inr None \<Rightarrow> Inr (Response 404 Errors, d)
      | Inr (Some recipe) \<Rightarrow>
          if is_image data
          then (let saved = recipe\<lparr>r_image := Some data\<rparr>
                in Inr (Response 200 (Detail saved), save_recipe saved d))
          else Inr (Response 400 Errors, d))"

text \<open>The actions of the model view set, for an authenticated user \<open>u\<close>.\<close>

fun recipe_action ::
  "python \<Rightarrow> 'p serializer \<Rightarrow> (string \<Rightarrow> bool) \<Rightarrow> db \<Rightarrow> int \<Rightarrow> (string \<rightharpoonup> string) \<Rightarrow> 'p action
     \<Rightarrow> exn + response \<times> db" where
  "recipe_action py ser is_image d u qp List =
     (case get_queryset py d u qp of
        Inl e \<Rightarrow> Inl e
      | Inr qs \<Rightarrow> Inr (Response 200 (Recipes qs), d))"
| "recipe_action py ser is_image d u qp (Create p) =
     (if is_valid ser False p
      then (case create ser d u p of (d', r) \<Rightarrow> Inr (Response 201 (Detail r), d'))
      else Inr (Response 400 Errors, d))"
| "recipe_action py ser is_image d u qp (Retrieve pk) =
     (case get_object py d u qp pk of
        Inl e \<Rightarrow> Inl e
      | Inr None \<Rightarrow> Inr (Response 404 Errors, d)
      | Inr (Some r) \<Rightarrow> Inr (Response 200 (Detail r), d))"
| "recipe_action py ser is_image d u qp (Update pk p) =
     (case get_object py d u qp pk of
        Inl e \<Rightarrow> Inl e
      | Inr None \<Rightarrow> Inr (Response 404 Errors, d)
      | Inr (Some r) \<Rightarrow>
          if is_valid ser False p
          then (case update ser d u r p of (d', r') \<Rightarrow> Inr (Response 200 (Detail r'), d'))
          else Inr (Response 400 Errors, d))"
| "recipe_action py ser is_image d u qp (PartialUpdate pk p) =
     (case get_object py d u qp pk of
        Inl e \<Rightarrow> Inl e
      | Inr None \<Rightarrow> Inr (Response 404 Errors, d)
      | Inr (Some r) \<Rightarrow>
          if is_valid ser True p
          then (case update ser d u r p of (d', r') \<Rightarrow> Inr (Response 200 (Detail r'), d'))
          else Inr (Response 400 Errors, d))"
| "recipe_action py ser is_image d u qp (Destroy pk) =
     (case get_object py d u qp pk of
        Inl e \<Rightarrow> Inl e
      | Inr None \<Rightarrow> Inr (Response 404 Errors, d)
      | Inr (Some r) \<Rightarrow> Inr (Response 204 Empty, delete_recipe r d))"
| "recipe_action py ser is_image d u qp (UploadImage pk data) =
     upload_image py is_image d u qp pk data"

text \<open>\<open>permission_classes = [IsAuthenticated]\<close>: a request without a user is answered
  with 401 before any action runs.\<close>

definition recipe_view ::
  "python \<Rightarrow> 'p serializer \<Rightarrow> (string \<Rightarrow> bool) \<Rightarrow> db \<Rightarrow> request \<Rightarrow> 'p action \<Rightarrow> exn + response \<times> db" where
  "recipe_view py ser is_image d req a =
     (case req_user req of
        None \<Rightarrow> Inr (Response 401 Errors, d)
      | Some u \<Rightarrow> recipe_action py ser is_image d u (query_params req) a)"

section \<open>BaseRecipeAttrViewSet, TagViewSet, IngredientViewSet\<close>









section \<open>The recipe serializer\<close>

text \<open>The fields a recipe payload may carry; the nested tags and ingredients are lists
  of names.\<close>

record recipe_payload =
  p_title :: "string option"
  p_time_minutes :: "int option"
  p_price :: "int option"
  p_description :: "string option"
  p_link :: "string option"
  p_tags :: "string list option"
  p_ingredients :: "string list option"

text \<open>
  Modelled from the spec: \<open>recipe/serializer.py\<close> is not among the sources.  Section 4.1:
  for each nested name, an existing user-owned label with that exact name is reused,
  otherwise a new one is created (get-or-create by name per user, not global).  The new
  row takes the next id of the table's sequence.
\<close>

definition get_or_create :: "int \<Rightarrow> string \<Rightarrow> label list \<times> int \<Rightarrow> label \<times> label list \<times> int" where
  "get_or_create u name st =
     (case st of (rows, seq) \<Rightarrow>
        (case find (\<lambda>l. l_user l = u \<and> l_name l = name) rows of
           Some l \<Rightarrow> (l, rows, seq)
         | None \<Rightarrow>
             (let l = \<lparr>l_id = seq, l_user = u, l_name = name\<rparr>
              in (l, rows @ [l], seq + 1))))"

text \<open>Modelled from the spec: adding a label to a recipe inserts the join row unless it
  is there already.\<close>

definition add_link :: "int \<times> int \<Rightarrow> (int \<times> int) list \<Rightarrow> (int \<times> int) list" where
  "add_link lk links = (if lk \<in> set links then links else links @ [lk])"

text \<open>Modelled from the spec: the loop over the nested names, each label obtained by
  \<open>get_or_create\<close> and linked to the recipe \<open>rid\<close>.\<close>

fun get_or_create_all ::
  "int \<Rightarrow> int \<Rightarrow> string list \<Rightarrow> label list \<times> int \<times> (int \<times> int) list
     \<Rightarrow> label list \<times> int \<times> (int \<times> int) list" where
  "get_or_create_all u rid [] st = st"
| "get_or_create_all u rid (name # names) (rows, seq, links) =
     (case get_or_create u name (rows, seq) of
        (l, rows', seq') \<Rightarrow>
          get_or_create_all u rid names (rows', seq', add_link (rid, l_id l) links))"

text \<open>Modelled from the spec: the loop run on the tag table and on the ingredient table
  of the store.\<close>

definition set_tags :: "int \<Rightarrow> int \<Rightarrow> string list \<Rightarrow> db \<Rightarrow> db" where
  "set_tags u rid names d =
     (case get_or_create_all u rid names (tags d, tag_seq d, recipe_tags d) of
        (rows, seq, links) \<Rightarrow> d\<lparr>tags := rows, tag_seq := seq, recipe_tags := links\<rparr>)"

definition set_ingredients :: "int \<Rightarrow> int \<Rightarrow> string list \<Rightarrow> db \<Rightarrow> db" where
  "set_ingredients u rid names d =
     (case get_or_create_all u rid names
             (ingredients d, ingredient_seq d, recipe_ingredients d) of
        (rows, seq, links) \<Rightarrow>
          d\<lparr>ingredients := rows, ingredient_seq := seq, recipe_ingredients := links\<rparr>)"

text \<open>Modelled from the spec: the row a create payload describes, for the owner \<open>u\<close>;
  the store assigns the id.\<close>

definition new_recipe :: "int \<Rightarrow> recipe_payload \<Rightarrow> recipe" where
  "new_recipe u p =
     \<lparr>r_id = 0, r_user = u,
      r_title = (case p_title p of None \<Rightarrow> [] | Some x \<Rightarrow> x),
      r_time_minutes = (case p_time_minutes p of None \<Rightarrow> 0 | Some x \<Rightarrow> x),
      r_price = (case p_price p of None \<Rightarrow> 0 | Some x \<Rightarrow> x),
      r_description = (case p_description p of None \<Rightarrow> [] | Some x \<Rightarrow> x),
      r_link = (case p_link p of None \<Rightarrow> [] | Some x \<Rightarrow> x),
      r_image = None\<rparr>"

text \<open>Modelled from the spec: the row after an update, each scalar field overwritten
  when the payload carries it.\<close>

definition updated_recipe :: "recipe \<Rightarrow> recipe_payload \<Rightarrow> recipe" where
  "updated_recipe r p =
     r\<lparr>r_title := (case p_title p of None \<Rightarrow> r_title r | Some x \<Rightarrow> x),
       r_time_minutes := (case p_time_minutes p of None \<Rightarrow> r_time_minutes r | Some x \<Rightarrow> x),
       r_price := (case p_price p of None \<Rightarrow> r_price r | Some x \<Rightarrow> x),
       r_description := (case p_description p of None \<Rightarrow> r_description r | Some x \<Rightarrow> x),
       r_link := (case p_link p of None \<Rightarrow> r_link r | Some x \<Rightarrow> x)\<rparr>"

text \<open>Modelled from the spec: the nested lists of a payload applied to the recipe \<open>rid\<close>.
  On create a list is linked as it is; on update the recipe's links of that kind are
  cleared first, as the update tests require.  A payload without the list changes
  nothing.\<close>

definition create_tags :: "int \<Rightarrow> int \<Rightarrow> recipe_payload \<Rightarrow> db \<Rightarrow> db" where
  "create_tags u rid p d =
     (case p_tags p of None \<Rightarrow> d | Some names \<Rightarrow> set_tags u rid names d)"

definition create_ingredients :: "int \<Rightarrow> int \<Rightarrow> recipe_payload \<Rightarrow> db \<Rightarrow> db" where
  "create_ingredients u rid p d =
     (case p_ingredients p of None \<Rightarrow> d | Some names \<Rightarrow> set_ingredients u rid names d)"

definition update_tags :: "int \<Rightarrow> int \<Rightarrow> recipe_payload \<Rightarrow> db \<Rightarrow> db" where
  "update_tags u rid p d =
     (case p_tags p of
        None \<Rightarrow> d
      | Some names \<Rightarrow>
          set_tags u rid names
            (d\<lparr>recipe_tags := filter (\<lambda>lk. fst lk \<noteq> rid) (recipe_tags d)\<rparr>))"

definition update_ingredients :: "int \<Rightarrow> int \<Rightarrow> recipe_payload \<Rightarrow> db \<Rightarrow> db" where
  "update_ingredients u rid p d =
     (case p_ingredients p of
        None \<Rightarrow> d
      | Some names \<Rightarrow>
          set_ingredients u rid names
            (d\<lparr>recipe_ingredients := filter (\<lambda>lk. fst lk \<noteq> rid) (recipe_ingredients d)\<rparr>))"

text \<open>
  Modelled from the spec: creating a recipe inserts the row under the next id, owned by
  the requesting user, then links the nested tags and ingredients.
\<close>

definition serializer_create :: "db \<Rightarrow> int \<Rightarrow> recipe_payload \<Rightarrow> db \<times> recipe" where
  "serializer_create d u p =
     (case insert_recipe (new_recipe u p) d of
        (d1, r) \<Rightarrow> (create_ingredients u (r_id r) p (create_tags u (r_id r) p d1), r))"

text \<open>
  Modelled from the spec: updating a recipe saves the row with the payload's scalar
  fields, then replaces the links of each nested list the payload carries.
\<close>

definition serializer_update :: "db \<Rightarrow> int \<Rightarrow> recipe \<Rightarrow> recipe_payload \<Rightarrow> db \<times> recipe" where
  "serializer_update d u r p =
     (let r' = updated_recipe r p
      in (update_ingredients u (r_id r) p (update_tags u (r_id r) p (save_recipe r' d)), r'))"

text \<open>Modelled from the spec: a full payload carries the fields section 3 does not call
  optional; a partial update may omit any of them.\<close>

definition serializer_is_valid :: "bool \<Rightarrow> recipe_payload \<Rightarrow> bool" where
  "serializer_is_valid partial p =
     (partial \<or>
      (p_title p \<noteq> None \<and> p_time_minutes p \<noteq> None \<and> p_price p \<noteq> None \<and>
       p_description p \<noteq> None))"

text \<open>Modelled from the spec: the recipe serializer, as the views take it.\<close>

definition recipe_serializer :: "recipe_payload serializer" where
  "recipe_serializer =
     \<lparr>is_valid = serializer_is_valid, create = serializer_create, update = serializer_update\<rparr>"

section \<open>Users and tokens\<close>

text \<open>
  Modelled from the spec: \<open>core/models.py\<close> and \<open>user/serializers.py\<close> are not among the
  sources.  Section 3: a user has a unique email with lower-case domain, a hashed
  password, a name and three flags; a token is bound to one user.
\<close>

record user =
  u_id :: int
  u_email :: string
  u_password :: string
  u_name :: string
  u_is_active :: bool
  u_is_staff :: bool
  u_is_superuser :: bool

record auth_db =
  users :: "user list"
  user_seq :: int
  tokens :: "(string \<times> int) list"

record user_payload =
  up_email :: string
  up_password :: string
  up_name :: string

text \<open>A JSON object of a response body: its fields and their values.\<close>

datatype user_response = UserResponse nat "(string \<times> string) list"

text \<open>Modelled from the spec: lower case of an ASCII letter, for the domain of an
  email.\<close>

definition to_lower :: "char \<Rightarrow> char" where
  "to_lower c =
     (if c \<in> set ''ABCDEFGHIJKLMNOPQRSTUVWXYZ'' then char_of (of_char c + (32::nat)) else c)"

text \<open>Modelled from the spec: the part after the last \<open>@\<close> is lower-cased; an address
  without \<open>@\<close> is left as it is.\<close>

definition normalize_email :: "string \<Rightarrow> string" where
  "normalize_email email =
     (let domain = rev (takeWhile (\<lambda>c. c \<noteq> CHR ''@'') (rev email));
          local = take (length email - length domain) email
      in if CHR ''@'' \<in> set email then local @ map to_lower domain else email)"

text \<open>
  Modelled from the spec: an email is already used when a stored user has it, as it was
  submitted or with its domain in lower case, the form in which emails are stored and
  unique (section 3).
\<close>

definition email_taken :: "auth_db \<Rightarrow> string \<Rightarrow> bool" where
  "email_taken ad email =
     (\<exists>x \<in> set (users ad). u_email x = email \<or> u_email x = normalize_email email)"

text \<open>
  Modelled from the spec: registration (section 4.3) rejects an empty email, a password
  below the minimum length \<open>min_length\<close> and an email already used, each with 400 and no
  row written; otherwise the user is stored with the normalised email and the hash
  \<open>hash\<close> of the password, and the profile comes back without the password.
\<close>

definition register ::
  "nat \<Rightarrow> (string \<Rightarrow> string) \<Rightarrow> auth_db \<Rightarrow> user_payload \<Rightarrow> user_response \<times> auth_db" where
  "register min_length hash ad p =
     (if up_email p = [] \<or> length (up_password p) < min_length \<or>
         email_taken ad (up_email p)
      then (UserResponse 400 [(''error'', ''invalid'')], ad)
      else
        (let email = normalize_email (up_email p);
             x = \<lparr>u_id = user_seq ad, u_email = email, u_password = hash (up_password p),
                  u_name = up_name p, u_is_active = True, u_is_staff = False,
                  u_is_superuser = False\<rparr>
         in (UserResponse 201 [(''email'', email), (''name'', up_name p)],
             ad\<lparr>users := users ad @ [x], user_seq := user_seq ad + 1\<rparr>)))"

text \<open>
  Modelled from the spec: token issuance (sections 4.3 and 7).  The credentials match when
  some stored user has the email and the hash of the password; then the user's token is
  returned, created from the fresh key \<open>new_key\<close> on the first login.  Every mismatch is
  answered with the same bad-credentials body.
\<close>

definition credentials_match :: "(string \<Rightarrow> string) \<Rightarrow> auth_db \<Rightarrow> string \<Rightarrow> string \<Rightarrow> bool" where
  "credentials_match hash ad email password =
     (\<exists>x \<in> set (users ad). u_email x = email \<and> u_password x = hash password)"

definition bad_credentials :: user_response where
  "bad_credentials =
     UserResponse 400
       [(''non_field_errors'', ''Unable to authenticate with provided credentials.'')]"

definition create_token ::
  "(string \<Rightarrow> string) \<Rightarrow> string \<Rightarrow> auth_db \<Rightarrow> string \<Rightarrow> string \<Rightarrow> user_response \<times> auth_db" where
  "create_token hash new_key ad email password =
     (case find (\<lambda>x. u_email x = email \<and> u_password x = hash password) (users ad) of
        None \<Rightarrow> (bad_credentials, ad)
      | Some x \<Rightarrow>
          (case find (\<lambda>t. snd t = u_id x) (tokens ad) of
             Some t \<Rightarrow> (UserResponse 200 [(''token'', fst t)], ad)
           | None \<Rightarrow>
               (UserResponse 200 [(''token'', new_key)],
                ad\<lparr>tokens := tokens ad @ [(new_key, u_id x)]\<rparr>)))"

section \<open>Vocabulary of the properties\<close>

text \<open>
  A list of ids as a client writes it into a query parameter: each id in decimal
  (\<open>str(n)\<close>), the numerals joined by commas (\<open>','.join\<close>).
\<close>

definition digit_char :: "nat \<Rightarrow> char" where
  "digit_char k = ''0123456789'' ! k"

fun decimal :: "nat \<Rightarrow> string" where
  "decimal n = (if n < 10 then [digit_char n] else decimal (n div 10) @ [digit_char (n mod 10)])"

declare decimal.simps [simp del]

fun comma_list :: "string list \<Rightarrow> string" where
  "comma_list [] = []"
| "comma_list [s] = s"
| "comma_list (s # t # ts) = s @ CHR '','' # comma_list (t # ts)"

definition id_list :: "nat list \<Rightarrow> string" where
  "id_list ns = comma_list (map decimal ns)"

text \<open>Ids of at most 640 digits, which no interpreter's digit limit refuses.\<close>

definition plain_ids :: "nat list \<Rightarrow> bool" where
  "plain_ids ns = (ns \<noteq> [] \<and> list_all (\<lambda>n. length (decimal n) \<le> 640) ns)"

text \<open>A filter parameter is well formed when it is absent, empty, or a comma-separated
  list that \<open>_params_to_ints\<close> converts.\<close>

definition well_formed :: "python \<Rightarrow> string option \<Rightarrow> bool" where
  "well_formed py p =
     (\<not> truthy p \<or> (case params_to_ints py (the p) of Inl _ \<Rightarrow> False | Inr _ \<Rightarrow> True))"

text \<open>A well-formed filter parameter admits py the row \<open>rid\<close> when it applies no filter or
  some join row of \<open>rid\<close> carries one of the listed ids.\<close>

definition admits :: "python \<Rightarrow> (int \<times> int) list \<Rightarrow> string option \<Rightarrow> int \<Rightarrow> bool" where
  "admits py links p rid =
     (\<not> truthy p \<or>
      (case params_to_ints py (the p) of
         Inl _ \<Rightarrow> False
       | Inr ids \<Rightarrow> list_ex (\<lambda>lk. fst lk = rid \<and> snd lk \<in> set ids) links))"


text \<open>Some token of a non-empty parameter is one that \<open>int\<close> refuses.\<close>

definition has_bad_token :: "python \<Rightarrow> string option \<Rightarrow> bool" where
  "has_bad_token py p = (truthy p \<and> list_ex (\<lambda>q. py_int py q = None) (split_on CHR '','' (the p)))"

text \<open>Descending order of a key along a list.\<close>

definition descending :: "('a \<Rightarrow> 'k::linorder) \<Rightarrow> 'a list \<Rightarrow> bool" where
  "descending k xs = sorted_wrt (\<lambda>a b. k a \<ge> k b) xs"

definition strictly_descending :: "('a \<Rightarrow> 'k::linorder) \<Rightarrow> 'a list \<Rightarrow> bool" where
  "strictly_descending k xs = sorted_wrt (\<lambda>a b. k a > k b) xs"



section \<open>Example stores and requests\<close>

text \<open>An interpreter for the examples, with the default digit limit; the examples carry
  ASCII text only.\<close>

definition example_python :: python where
  "example_python = \<lparr>int_max_str_digits = 4300, unicode_int = (\<lambda>_. None)\<rparr>"

text \<open>The sample recipe of the test suite, under id \<open>i\<close> and owner \<open>u\<close>.\<close>

definition example_recipe :: "int \<Rightarrow> int \<Rightarrow> recipe" where
  "example_recipe i u =
     \<lparr>r_id = i, r_user = u, r_title = ''Sample recipe title'', r_time_minutes = 22,
      r_price = 525, r_description = ''Sample recipe description'',
      r_link = ''http://example.com/recipe.pdf'', r_image = None\<rparr>"

definition example_payload :: recipe_payload where
  "example_payload =
     \<lparr>p_title = Some ''Sample recipe title'', p_time_minutes = Some 22, p_price = Some 525,
      p_description = Some ''Sample recipe description'',
      p_link = Some ''http://example.com/recipe.pdf'', p_tags = None, p_ingredients = None\<rparr>"

definition empty_db :: db where
  "empty_db =
     \<lparr>recipes = [], tags = [], ingredients = [], recipe_tags = [], recipe_ingredients = [],
      recipe_seq = 1, tag_seq = 1, ingredient_seq = 1\<rparr>"

text \<open>
  A store of two users.  User 1 owns recipes 1 and 2 and the tags 5 and 6; recipe 1
  carries both tags and ingredient 3, recipe 2 carries tag 6.  User 2 owns recipe 3, tag 7
  and ingredient 4.
\<close>

definition example_db :: db where
  "example_db =
     \<lparr>recipes = [example_recipe 1 1, example_recipe 2 1, example_recipe 3 2],
      tags = [\<lparr>l_id = 5, l_user = 1, l_name = ''Dinner''\<rparr>,
              \<lparr>l_id = 6, l_user = 1, l_name = ''Thai''\<rparr>,
              \<lparr>l_id = 7, l_user = 2, l_name = ''Thai''\<rparr>,
              \<lparr>l_id = 8, l_user = 1, l_name = ''Breakfast''\<rparr>],
      ingredients = [\<lparr>l_id = 3, l_user = 1, l_name = ''Salt''\<rparr>,
                     \<lparr>l_id = 4, l_user = 2, l_name = ''Salt''\<rparr>],
      recipe_tags = [(1, 5), (1, 6), (2, 6), (3, 7)],
      recipe_ingredients = [(1, 3), (3, 4)],
      recipe_seq = 4, tag_seq = 9, ingredient_seq = 5\<rparr>"


text \<open>A stand-in for the password hasher, and a user store with the one user of the
  user tests.\<close>

definition example_hash :: "string \<Rightarrow> string" where
  "example_hash password = ''hashed$'' @ rev password"

definition example_auth_db :: auth_db where
  "example_auth_db =
     \<lparr>users = [\<lparr>u_id = 1, u_email = ''test@example.com'',
                 u_password = example_hash ''goodpass'', u_name = ''Test Name'',
                 u_is_active = True, u_is_staff = False, u_is_superuser = False\<rparr>],
      user_seq = 2, tokens = []\<rparr>"


definition example_request :: "int \<Rightarrow> (string \<times> string) list \<Rightarrow> request" where
  "example_request u params = \<lparr>req_user = Some u, query_params = map_of params\<rparr>"

section \<open>Properties of the query sets\<close>

lemma ints_of_Inl: "ints_of py qs = Inl e \<Longrightarrow> e = ValueError"
  by (induction qs arbitrary: e) (auto split: option.splits sum.splits)

lemma ints_of_bad: "(ints_of py qs = Inl ValueError) = list_ex (\<lambda>q. py_int py q = None) qs"
  by (induction qs) (auto split: option.splits sum.splits)

lemma params_to_ints_cases:
  "params_to_ints py s = Inl ValueError \<or> (\<exists>ids. params_to_ints py s = Inr ids)"
  unfolding params_to_ints_def by (cases "ints_of py (split_on CHR '','' s)") (auto dest: ints_of_Inl)

lemma set_filter_m2m_in:
  "set (filter_m2m_in key links ids qs) =
     {r \<in> set qs. \<exists>lk \<in> set links. fst lk = key r \<and> snd lk \<in> set ids}"
  unfolding filter_m2m_in_def by auto

lemma set_order_by_desc: "set (order_by_desc k qs) = set qs"
  by (simp add: order_by_desc_def)

lemma descending_order_by_desc: "descending k (order_by_desc k qs)"
proof -
  have "sorted (map k (sort_key k qs))" by simp
  then have "sorted_wrt (\<lambda>a b. k a \<le> k b) (sort_key k qs)"
    by (simp add: sorted_wrt_map)
  then have "sorted_wrt (\<lambda>a b. k b \<le> k a) (rev (sort_key k qs))"
    by (simp add: sorted_wrt_rev)
  then show ?thesis by (simp add: descending_def order_by_desc_def)
qed

lemma sorted_wrt_remdups: "sorted_wrt P xs \<Longrightarrow> sorted_wrt P (remdups xs)"
  by (induction xs) auto

lemma descending_distinct_rows: "descending k qs \<Longrightarrow> descending k (distinct_rows qs)"
  by (simp add: descending_def distinct_rows_def sorted_wrt_remdups)

lemma well_formed_cases:
  "well_formed py p \<or> (truthy p \<and> params_to_ints py (the p) = Inl ValueError)"
  using params_to_ints_cases [of py "the p"] by (auto simp: well_formed_def)

lemma get_queryset_well_formed:
  assumes "well_formed py (qp ''tags'')" and "well_formed py (qp ''ingredients'')"
  shows "\<exists>rs. get_queryset py d u qp = Inr rs \<and> distinct rs \<and> descending r_id rs \<and>
           set rs = {r \<in> set (recipes d). r_user r = u \<and>
                       admits py (recipe_tags d) (qp ''tags'') (r_id r) \<and>
                       admits py (recipe_ingredients d) (qp ''ingredients'') (r_id r)}"
  using assms
  by (auto simp: get_queryset_def well_formed_def admits_def Let_def distinct_rows_def
      set_order_by_desc set_filter_m2m_in descending_order_by_desc descending_distinct_rows[unfolded distinct_rows_def]
      list_ex_iff split: sum.splits)

lemma get_queryset_malformed:
  assumes "\<not> well_formed py (qp ''tags'') \<or> \<not> well_formed py (qp ''ingredients'')"
  shows "get_queryset py d u qp = Inl ValueError"
  using assms well_formed_cases [of py "qp ''tags''"]
    well_formed_cases [of py "qp ''ingredients''"]
  by (auto simp: get_queryset_def Let_def well_formed_def split: sum.splits)

lemma get_queryset_Inr:
  assumes "get_queryset py d u qp = Inr rs"
  shows "well_formed py (qp ''tags'') \<and> well_formed py (qp ''ingredients'') \<and>
         distinct rs \<and> descending r_id rs \<and>
         set rs = {r \<in> set (recipes d). r_user r = u \<and>
                       admits py (recipe_tags d) (qp ''tags'') (r_id r) \<and>
                       admits py (recipe_ingredients d) (qp ''ingredients'') (r_id r)}"
proof -
  have wf: "well_formed py (qp ''tags'') \<and> well_formed py (qp ''ingredients'')"
    using assms get_queryset_malformed [of py qp d u] by auto
  then show ?thesis
    using get_queryset_well_formed [of py qp d u] assms by auto
qed

lemma get_queryset_Inl: "get_queryset py d u qp = Inl e \<Longrightarrow> e = ValueError"
  using get_queryset_malformed [of py qp d u] get_queryset_well_formed [of py qp d u]
  by (cases "well_formed py (qp ''tags'') \<and> well_formed py (qp ''ingredients'')") auto

lemma pk_ok_unique:
  "pk_ok key rows seq \<Longrightarrow> x \<in> set rows \<Longrightarrow> y \<in> set rows \<Longrightarrow> key x = key y \<Longrightarrow> x = y"
  by (auto simp: pk_ok_def distinct_map inj_on_def)

lemma filter_key_unique:
  assumes "distinct rs" and "r \<in> set rs"
    and "\<And>x. x \<in> set rs \<Longrightarrow> key x = key r \<Longrightarrow> x = r"
  shows "filter (\<lambda>x. key x = key r) rs = [r]"
proof -
  have "filter (\<lambda>x. key x = key r) rs = filter (\<lambda>x. x = r) rs"
    using assms(3) by (intro filter_cong) auto
  also have "\<dots> = [r]"
    using assms(1,2) by (induction rs) (auto simp: filter_empty_conv)
  finally show ?thesis .
qed

lemma get_object_resolves:
  assumes "wf_db d" and "r \<in> set (recipes d)" and "r_user r = u"
    and "well_formed py (qp ''tags'')" and "well_formed py (qp ''ingredients'')"
    and "admits py (recipe_tags d) (qp ''tags'') (r_id r)"
    and "admits py (recipe_ingredients d) (qp ''ingredients'') (r_id r)"
  shows "get_object py d u qp (r_id r) = Inr (Some r)"
proof -
  obtain rs where rs: "get_queryset py d u qp = Inr rs" "distinct rs"
    and set_rs: "set rs = {r \<in> set (recipes d). r_user r = u \<and>
                       admits py (recipe_tags d) (qp ''tags'') (r_id r) \<and>
                       admits py (recipe_ingredients d) (qp ''ingredients'') (r_id r)}"
    using get_queryset_well_formed [OF assms(4,5), of d u] by blast
  have "r \<in> set rs" using assms set_rs by simp
  moreover have "\<And>x. x \<in> set rs \<Longrightarrow> r_id x = r_id r \<Longrightarrow> x = r"
    using assms(1,2) set_rs pk_ok_unique [of r_id "recipes d" "recipe_seq d"]
    by (auto simp: wf_db_def)
  ultimately have "filter (\<lambda>x. r_id x = r_id r) rs = [r]"
    using rs(2) by (intro filter_key_unique) auto
  then show ?thesis by (simp add: get_object_def rs(1))
qed

lemma get_object_excluded:
  assumes "wf_db d" and "r \<in> set (recipes d)"
    and "well_formed py (qp ''tags'')" and "well_formed py (qp ''ingredients'')"
    and "r_user r \<noteq> u \<or> \<not> admits py (recipe_tags d) (qp ''tags'') (r_id r) \<or>
         \<not> admits py (recipe_ingredients d) (qp ''ingredients'') (r_id r)"
  shows "get_object py d u qp (r_id r) = Inr None"
proof -
  obtain rs where rs: "get_queryset py d u qp = Inr rs"
    and set_rs: "set rs = {r \<in> set (recipes d). r_user r = u \<and>
                       admits py (recipe_tags d) (qp ''tags'') (r_id r) \<and>
                       admits py (recipe_ingredients d) (qp ''ingredients'') (r_id r)}"
    using get_queryset_well_formed [OF assms(3,4), of d u] by blast
  have "\<And>x. x \<in> set rs \<Longrightarrow> r_id x \<noteq> r_id r"
  proof
    fix x assume x: "x \<in> set rs" "r_id x = r_id r"
    then have "x = r"
      using assms(1,2) set_rs pk_ok_unique [of r_id "recipes d" "recipe_seq d" x r]
      by (auto simp: wf_db_def)
    then show False using x(1) set_rs assms(5) by auto
  qed
  then have "filter (\<lambda>x. r_id x = r_id r) rs = []"
    by (simp add: filter_empty_conv)
  then show ?thesis by (simp add: get_object_def rs)
qed


section \<open>Malformed filter parameters\<close>

lemma has_bad_token_malformed: "has_bad_token py p \<Longrightarrow> \<not> well_formed py p"
  by (auto simp: has_bad_token_def well_formed_def params_to_ints_def ints_of_bad [symmetric])

lemma recipe_action_value_error:
  assumes "get_queryset py d u qp = Inl ValueError" and "\<forall>p. a \<noteq> Create p"
  shows "recipe_action py ser im d u qp a = Inl ValueError"
  using assms by (cases a) (simp_all add: get_object_def upload_image_def)

lemma get_queryset_empty_tags:
  "get_queryset py d u (qp(''tags'' \<mapsto> [])) = get_queryset py d u (qp(''tags'' := None))"
  by (simp add: get_queryset_def truthy_def Let_def split: sum.splits)

lemma get_queryset_empty_ingredients:
  "get_queryset py d u (qp(''ingredients'' \<mapsto> [])) =
     get_queryset py d u (qp(''ingredients'' := None))"
  by (simp add: get_queryset_def truthy_def Let_def split: sum.splits)

lemma has_bad_token_examples:
  "has_bad_token py (Some ''abc'')" "has_bad_token py (Some ''1,,2'')"
  by (simp_all add: has_bad_token_def truthy_def py_int_def ascii_int_def strip_def
      is_space_def is_digit_def is_ascii_def)

lemma create_ignores_query_params:
  "recipe_view py ser im d (req\<lparr>query_params := qp'\<rparr>) (Create p) =
     recipe_view py ser im d req (Create p)"
  by (simp add: recipe_view_def split: option.splits)

text \<open>
  Claim C9, as amended.  For an authenticated request of any action that resolves the
  query set (list, retrieve, update, partial update, destroy, upload-image; every action
  but create), a non-empty \<open>tags\<close> or \<open>ingredients\<close> parameter with a token that \<open>int\<close>
  refuses makes the request end in the uncaught \<open>ValueError\<close>: no response is produced.
  \<open>abc\<close> and \<open>1,,2\<close> are such parameters under every interpreter.  An empty-string
  parameter is treated as an absent one.  The answer to a create request does not depend
  on the query parameters at all.
\<close>

theorem malformed_filter_raises:
  "(req_user req = Some u \<and>
    (has_bad_token py (query_params req ''tags'') \<or>
     has_bad_token py (query_params req ''ingredients'')) \<and>
    (\<forall>p. a \<noteq> Create p)
    \<longrightarrow> recipe_view py ser im d req a = Inl ValueError) \<and>
   has_bad_token py (Some ''abc'') \<and>
   has_bad_token py (Some ''1,,2'') \<and>
   get_queryset py d u (qp(''tags'' \<mapsto> [])) = get_queryset py d u (qp(''tags'' := None)) \<and>
   get_queryset py d u (qp(''ingredients'' \<mapsto> [])) =
     get_queryset py d u (qp(''ingredients'' := None)) \<and>
   recipe_view py ser im d (req\<lparr>query_params := qp'\<rparr>) (Create p) =
     recipe_view py ser im d req (Create p)"
proof -
  have 1: "req_user req = Some u \<and>
    (has_bad_token py (query_params req ''tags'') \<or>
     has_bad_token py (query_params req ''ingredients'')) \<and>
    (\<forall>p. a \<noteq> Create p)
    \<longrightarrow> recipe_view py ser im d req a = Inl ValueError"
  proof
    assume h: "req_user req = Some u \<and>
      (has_bad_token py (query_params req ''tags'') \<or>
       has_bad_token py (query_params req ''ingredients'')) \<and>
      (\<forall>p. a \<noteq> Create p)"
    then have "get_queryset py d u (query_params req) = Inl ValueError"
      using has_bad_token_malformed get_queryset_malformed by blast
    then show "recipe_view py ser im d req a = Inl ValueError"
      using h by (simp add: recipe_view_def recipe_action_value_error)
  qed
  show ?thesis
    by (rule conjI [OF 1 conjI [OF has_bad_token_examples(1) conjI [OF has_bad_token_examples(2)
          conjI [OF get_queryset_empty_tags conjI [OF get_queryset_empty_ingredients
            create_ignores_query_params]]]]])
qed

theorem malformed_filter_raises_witness:
  "has_bad_token example_python
     (query_params (example_request 1 [(''tags'', ''1,,2'')]) ''tags'') \<and>
   recipe_view example_python recipe_serializer (\<lambda>_. True) example_db
     (example_request 1 [(''tags'', ''1,,2'')]) (Retrieve 1) = Inl ValueError"
proof -
  let ?req = "example_request 1 [(''tags'', ''1,,2'')]"
  have bad: "has_bad_token example_python (query_params ?req ''tags'')"
    by code_simp
  have user: "req_user ?req = Some 1"
    by (simp add: example_request_def)
  have "\<forall>p. (Retrieve 1 :: recipe_payload action) \<noteq> Create p"
    by simp
  with bad user have h: "req_user ?req = Some 1 \<and>
    (has_bad_token example_python (query_params ?req ''tags'') \<or>
     has_bad_token example_python (query_params ?req ''ingredients'')) \<and>
    (\<forall>p. (Retrieve 1 :: recipe_payload action) \<noteq> Create p)"
    by simp
  have "recipe_view example_python recipe_serializer (\<lambda>_. True) example_db ?req (Retrieve 1) =
      Inl ValueError"
    using malformed_filter_raises
      [where req = ?req and u = 1 and py = example_python and a = "Retrieve 1"
         and ser = recipe_serializer and im = "\<lambda>_. True" and d = example_db,
       THEN conjunct1, THEN mp, OF h] .
  with bad show ?thesis by simp
qed

text \<open>
  The claim as stated speaks of every recipe request.  A create request does not
  resolve the query set: with \<open>tags=abc\<close> it stores the recipe and answers 201.
\<close>

theorem create_ignores_filter_parameters:
  "has_bad_token example_python
     (query_params (example_request 1 [(''tags'', ''abc'')]) ''tags'') \<and>
   recipe_view example_python recipe_serializer (\<lambda>_. True) empty_db
     (example_request 1 [(''tags'', ''abc'')]) (Create example_payload) =
   Inr (Response 201 (Detail (example_recipe 1 1)),
        empty_db\<lparr>recipes := [example_recipe 1 1], recipe_seq := 2\<rparr>)"
  by code_simp

section \<open>Filters on the detail actions\<close>

lemma recipe_action_not_found:
  assumes "get_object py d u qp pk = Inr None"
    and "a \<in> {Retrieve pk, Update pk p, PartialUpdate pk p, Destroy pk, UploadImage pk data}"
  shows "recipe_action py ser im d u qp a = Inr (Response 404 Errors, d)"
  using assms by (auto simp: upload_image_def)

text \<open>
  Claim C10.  \<open>get_queryset\<close> applies the \<open>tags\<close> and \<open>ingredients\<close> filters for every
  action that resolves an object.  When the requesting user targets a recipe of their own
  and a filter parameter of the request (a list of ids) matches none of the recipe's join
  rows, a retrieve, update, partial update, delete or upload-image request is answered
  with 404 and the store is left as it was.
\<close>

theorem filters_apply_to_detail_actions:
  assumes "wf_db d" and "req_user req = Some u"
    and "r \<in> set (recipes d)" and "r_user r = u"
    and "well_formed py (query_params req ''tags'')"
    and "well_formed py (query_params req ''ingredients'')"
    and "\<not> admits py (recipe_tags d) (query_params req ''tags'') (r_id r) \<or>
         \<not> admits py (recipe_ingredients d) (query_params req ''ingredients'') (r_id r)"
    and "a \<in> {Retrieve (r_id r), Update (r_id r) p, PartialUpdate (r_id r) p,
               Destroy (r_id r), UploadImage (r_id r) data}"
  shows "recipe_view py ser im d req a = Inr (Response 404 Errors, d)"
proof -
  have "get_object py d u (query_params req) (r_id r) = Inr None"
    using assms(1,3,5,6,7) by (intro get_object_excluded) auto
  then have "recipe_action py ser im d u (query_params req) a = Inr (Response 404 Errors, d)"
    using assms(8) by (rule recipe_action_not_found)
  then show ?thesis by (simp add: recipe_view_def assms(2))
qed

text \<open>User 1 deletes their recipe 2, which carries tag 6 only: with \<open>tags=5\<close> the
  request is answered with 404, without the parameter the recipe is deleted.\<close>

theorem filters_apply_to_detail_actions_witness:
  "recipe_view example_python recipe_serializer (\<lambda>_. True) example_db
     (example_request 1 [(''tags'', ''5'')]) (Destroy 2) =
     Inr (Response 404 Errors, example_db) \<and>
   recipe_view example_python recipe_serializer (\<lambda>_. True) example_db (example_request 1 []) (Destroy 2) =
     Inr (Response 204 Empty,
          example_db\<lparr>recipes := [example_recipe 1 1, example_recipe 3 2],
                      recipe_tags := [(1, 5), (1, 6), (3, 7)]\<rparr>)"
proof -
  let ?req = "example_request 1 [(''tags'', ''5'')]"
  have 1: "wf_db example_db" by code_simp
  have 2: "req_user ?req = Some 1" by code_simp
  have 3: "example_recipe 2 1 \<in> set (recipes example_db)" by code_simp
  have 4: "r_user (example_recipe 2 1) = 1" by code_simp
  have 5: "well_formed example_python (query_params ?req ''tags'')" by code_simp
  have 6: "well_formed example_python (query_params ?req ''ingredients'')" by code_simp
  have 7: "\<not> admits example_python (recipe_tags example_db) (query_params ?req ''tags'')
              (r_id (example_recipe 2 1)) \<or>
           \<not> admits example_python (recipe_ingredients example_db) (query_params ?req ''ingredients'')
              (r_id (example_recipe 2 1))"
    by code_simp
  have 8: "r_id (example_recipe 2 1) = 2" by code_simp
  have "recipe_view example_python recipe_serializer (\<lambda>_. True) example_db ?req (Destroy 2) =
          Inr (Response 404 Errors, example_db)"
    using filters_apply_to_detail_actions
      [OF 1 2 3 4 5 6 7, of "Destroy 2" example_payload "[]" recipe_serializer "\<lambda>_. True"]
    by (simp add: 8)
  moreover have
    "recipe_view example_python recipe_serializer (\<lambda>_. True) example_db (example_request 1 []) (Destroy 2) =
       Inr (Response 204 Empty,
            example_db\<lparr>recipes := [example_recipe 1 1, example_recipe 3 2],
                        recipe_tags := [(1, 5), (1, 6), (3, 7)]\<rparr>)"
    by code_simp
  ultimately show ?thesis by simp
qed

section \<open>Filtering the recipe list\<close>

lemma recipe_view_list:
  "req_user req = Some u \<Longrightarrow>
   recipe_view py ser im d req List =
     (case get_queryset py d u (query_params req) of
        Inl e \<Rightarrow> Inl e
      | Inr qs \<Rightarrow> Inr (Response 200 (Recipes qs), d))"
  by (simp add: recipe_view_def)

lemma admits_explicit:
  "well_formed py p \<Longrightarrow>
   admits py links p rid =
     (\<forall>s ids. p = Some s \<and> s \<noteq> [] \<and> params_to_ints py s = Inr ids
        \<longrightarrow> (\<exists>t \<in> set ids. (rid, t) \<in> set links))"
  by (cases p) (force simp: well_formed_def admits_def truthy_def list_ex_iff split: sum.splits)+

text \<open>A list of ids written in decimal and joined by commas is read back by
  \<open>_params_to_ints\<close> as the same ids.\<close>

lemma digit_cases:
  "k < 10 \<Longrightarrow> k = 0 \<or> k = 1 \<or> k = 2 \<or> k = 3 \<or> k = 4 \<or> k = 5 \<or> k = 6 \<or> k = 7 \<or> k = 8 \<or> k = (9::nat)"
  by arith

lemma digit_char_props:
  assumes "k < 10"
  shows "is_digit (digit_char k)" "digit_val (digit_char k) = int k"
  using digit_cases [OF assms]
  by (auto simp: digit_char_def is_digit_def digit_val_def)

lemma is_digit_plain:
  assumes "is_digit c"
  shows "is_ascii c" "\<not> is_space c" "c \<noteq> CHR '',''" "c \<noteq> CHR ''-''" "c \<noteq> CHR ''+''"
  using assms by (auto simp: is_digit_def is_ascii_def is_space_def)

lemma decimal_digits: "list_all is_digit (decimal n)"
proof (induction n rule: decimal.induct)
  case (1 n)
  show ?case
  proof (cases "n < 10")
    case True
    then show ?thesis by (simp add: decimal.simps [of n] digit_char_props)
  next
    case False
    moreover have "n mod 10 < 10" by simp
    ultimately show ?thesis
      using 1 by (simp add: decimal.simps [of n] digit_char_props)
  qed
qed

lemma decimal_not_empty: "decimal n \<noteq> []"
  by (subst decimal.simps) simp

lemma parse_digits_foldl:
  "list_all is_digit ds \<Longrightarrow>
   parse_digits acc ds = Some (foldl (\<lambda>a c. a * 10 + digit_val c) acc ds)"
  by (induction acc ds rule: parse_digits.induct) auto

lemma foldl_decimal: "foldl (\<lambda>a c. a * 10 + digit_val c) 0 (decimal n) = int n"
proof (induction n rule: decimal.induct)
  case (1 n)
  show ?case
  proof (cases "n < 10")
    case True
    then show ?thesis by (simp add: decimal.simps [of n] digit_char_props)
  next
    case False
    have m: "n mod 10 < 10" by simp
    have "foldl (\<lambda>a c. a * 10 + digit_val c) 0 (decimal n) =
        int (n div 10) * 10 + int (n mod 10)"
      using False 1 by (simp add: decimal.simps [of n] digit_char_props(2) [OF m])
    also have "\<dots> = int n" by presburger
    finally show ?thesis .
  qed
qed

lemma dropWhile_none: "list_all (\<lambda>c. \<not> P c) xs \<Longrightarrow> dropWhile P xs = xs"
  by (cases xs) auto

lemma strip_digits: "list_all is_digit s \<Longrightarrow> strip s = s"
proof -
  assume "list_all is_digit s"
  then have a: "list_all (\<lambda>c. \<not> is_space c) s"
    by (auto simp: list_all_iff is_digit_plain)
  then have "list_all (\<lambda>c. \<not> is_space c) (rev s)" by (simp add: list_all_iff)
  then show ?thesis using a by (simp add: strip_def dropWhile_none)
qed

lemma ascii_int_decimal:
  assumes "length (decimal n) \<le> 640"
  shows "ascii_int limit (decimal n) = Some (int n)"
proof -
  obtain c cs where cs: "decimal n = c # cs"
    using decimal_not_empty [of n] by (cases "decimal n") auto
  have dig: "list_all is_digit (c # cs)" using decimal_digits [of n] by (simp add: cs)
  then have c: "is_digit c" "list_all is_digit cs" by simp_all
  have "length (filter is_digit (c # cs)) \<le> length (c # cs)"
    by (rule length_filter_le)
  then have "length (filter is_digit (c # cs)) \<le> 640"
    using assms unfolding cs by (rule le_trans)
  then have "\<not> over_limit limit (c # cs)"
    unfolding over_limit_def Let_def by linarith
  moreover have "parse_digits (digit_val c) cs = Some (int n)"
    using parse_digits_foldl [OF c(2), of "digit_val c"] foldl_decimal [of n]
    by (simp add: cs)
  moreover have "strip (c # cs) = c # cs" using dig by (rule strip_digits)
  ultimately show ?thesis
    using c(1) is_digit_plain(4,5) [OF c(1)]
    by (simp add: ascii_int_def cs Let_def)
qed

lemma py_int_decimal:
  assumes "length (decimal n) \<le> 640"
  shows "py_int py (decimal n) = Some (int n)"
proof -
  have "list_all is_ascii (decimal n)"
    using decimal_digits [of n] by (auto simp: list_all_iff is_digit_plain)
  then show ?thesis by (simp add: py_int_def ascii_int_decimal [OF assms])
qed

lemma split_on_not_empty: "split_on c xs \<noteq> []"
  by (induction xs) (auto split: list.splits)

lemma split_on_plain: "c \<notin> set s \<Longrightarrow> split_on c s = [s]"
  by (induction s) auto

lemma split_on_append:
  "c \<notin> set s \<Longrightarrow> split_on c (s @ c # rest) = s # split_on c rest"
  by (induction s) (auto split: list.splits)

lemma split_comma_list:
  "strs \<noteq> [] \<Longrightarrow> \<forall>s \<in> set strs. CHR '','' \<notin> set s \<Longrightarrow>
   split_on CHR '','' (comma_list strs) = strs"
  by (induction strs rule: comma_list.induct) (auto simp: split_on_plain split_on_append)

lemma ints_of_decimal:
  "list_all (\<lambda>n. length (decimal n) \<le> 640) ns \<Longrightarrow>
   ints_of py (map decimal ns) = Inr (map int ns)"
  by (induction ns) (auto simp: py_int_decimal)

lemma comma_list_not_empty: "strs \<noteq> [] \<Longrightarrow> [] \<notin> set strs \<Longrightarrow> comma_list strs \<noteq> []"
  by (induction strs rule: comma_list.induct) auto

lemma id_list_parsed:
  assumes "plain_ids ns"
  shows "params_to_ints py (id_list ns) = Inr (map int ns)" "id_list ns \<noteq> []"
proof -
  have ne: "map decimal ns \<noteq> []" using assms by (simp add: plain_ids_def)
  have nc: "\<forall>s \<in> set (map decimal ns). CHR '','' \<notin> set s"
    using decimal_digits is_digit_plain(3) by (fastforce simp: list_all_iff)
  show "params_to_ints py (id_list ns) = Inr (map int ns)"
    using assms
    by (simp add: params_to_ints_def id_list_def split_comma_list [OF ne nc] ints_of_decimal
        plain_ids_def)
  have "[] \<notin> set (map decimal ns)"
  proof
    assume "[] \<in> set (map decimal ns)"
    then obtain n where "[] = decimal n" by auto
    then show False using decimal_not_empty [of n] by simp
  qed
  then show "id_list ns \<noteq> []"
    unfolding id_list_def using ne by (intro comma_list_not_empty)
qed


lemma well_formed_id_list: "plain_ids ns \<Longrightarrow> well_formed py (Some (id_list ns))"
  by (simp add: well_formed_def id_list_parsed)

lemma admits_id_list:
  "plain_ids ns \<Longrightarrow>
   admits py links (Some (id_list ns)) rid = (\<exists>t \<in> set ns. (rid, int t) \<in> set links)"
  by (force simp: admits_def truthy_def id_list_parsed list_ex_iff)

lemma not_truthy_admits:
  "\<not> truthy p \<Longrightarrow> well_formed py p" "\<not> truthy p \<Longrightarrow> admits py links p rid"
  by (simp_all add: well_formed_def admits_def)

lemma recipe_list_admitted:
  assumes "req_user req = Some u"
    and "well_formed py (query_params req ''tags'')"
    and "well_formed py (query_params req ''ingredients'')"
  shows "\<exists>rs. recipe_view py ser im d req List = Inr (Response 200 (Recipes rs), d) \<and>
           distinct rs \<and>
           set rs = {r \<in> set (recipes d). r_user r = u \<and>
                   admits py (recipe_tags d) (query_params req ''tags'') (r_id r) \<and>
                   admits py (recipe_ingredients d) (query_params req ''ingredients'') (r_id r)}"
  using get_queryset_well_formed [OF assms(2,3), of d u]
  by (auto simp: recipe_view_list [OF assms(1)])

text \<open>
  Claim C2.  Take a recipe-list request of user \<open>u\<close>.  When its \<open>tags\<close> parameter is a
  non-empty list of ids, written in decimal and joined by commas, and it has no
  \<open>ingredients\<close> filter, the answer holds exactly the recipes of \<open>u\<close> with a join row to a
  tag whose id is in the list, each recipe once however many of its tags match.  The same
  holds of a non-empty \<open>ingredients\<close> list without a \<open>tags\<close> filter, and with both
  parameters a recipe is returned exactly when it meets both conditions.
\<close>

theorem recipe_list_filter_exact:
  assumes "req_user req = Some u"
  shows
   "(plain_ids tids \<and> query_params req ''tags'' = Some (id_list tids) \<and>
     \<not> truthy (query_params req ''ingredients'') \<longrightarrow>
       (\<exists>rs. recipe_view py ser im d req List = Inr (Response 200 (Recipes rs), d) \<and>
             distinct rs \<and>
             set rs = {r \<in> set (recipes d). r_user r = u \<and>
                         (\<exists>t \<in> set tids. (r_id r, int t) \<in> set (recipe_tags d))})) \<and>
    (plain_ids iids \<and> query_params req ''ingredients'' = Some (id_list iids) \<and>
     \<not> truthy (query_params req ''tags'') \<longrightarrow>
       (\<exists>rs. recipe_view py ser im d req List = Inr (Response 200 (Recipes rs), d) \<and>
             distinct rs \<and>
             set rs = {r \<in> set (recipes d). r_user r = u \<and>
                         (\<exists>i \<in> set iids. (r_id r, int i) \<in> set (recipe_ingredients d))})) \<and>
    (plain_ids tids \<and> query_params req ''tags'' = Some (id_list tids) \<and>
     plain_ids iids \<and> query_params req ''ingredients'' = Some (id_list iids) \<longrightarrow>
       (\<exists>rs. recipe_view py ser im d req List = Inr (Response 200 (Recipes rs), d) \<and>
             distinct rs \<and>
             set rs = {r \<in> set (recipes d). r_user r = u \<and>
                         (\<exists>t \<in> set tids. (r_id r, int t) \<in> set (recipe_tags d)) \<and>
                         (\<exists>i \<in> set iids. (r_id r, int i) \<in> set (recipe_ingredients d))}))"
proof -
  have 1: "plain_ids tids \<and> query_params req ''tags'' = Some (id_list tids) \<and>
     \<not> truthy (query_params req ''ingredients'') \<longrightarrow>
       (\<exists>rs. recipe_view py ser im d req List = Inr (Response 200 (Recipes rs), d) \<and>
             distinct rs \<and>
             set rs = {r \<in> set (recipes d). r_user r = u \<and>
                         (\<exists>t \<in> set tids. (r_id r, int t) \<in> set (recipe_tags d))})"
  proof
    assume h: "plain_ids tids \<and> query_params req ''tags'' = Some (id_list tids) \<and>
     \<not> truthy (query_params req ''ingredients'')"
    then have "well_formed py (query_params req ''tags'')"
      "well_formed py (query_params req ''ingredients'')"
      by (simp_all add: well_formed_id_list not_truthy_admits)
    from recipe_list_admitted [OF assms this, of ser im d]
    show "\<exists>rs. recipe_view py ser im d req List = Inr (Response 200 (Recipes rs), d) \<and>
             distinct rs \<and>
             set rs = {r \<in> set (recipes d). r_user r = u \<and>
                         (\<exists>t \<in> set tids. (r_id r, int t) \<in> set (recipe_tags d))}"
      using h by (simp add: admits_id_list not_truthy_admits)
  qed
  have 2: "plain_ids iids \<and> query_params req ''ingredients'' = Some (id_list iids) \<and>
     \<not> truthy (query_params req ''tags'') \<longrightarrow>
       (\<exists>rs. recipe_view py ser im d req List = Inr (Response 200 (Recipes rs), d) \<and>
             distinct rs \<and>
             set rs = {r \<in> set (recipes d). r_user r = u \<and>
                         (\<exists>i \<in> set iids. (r_id r, int i) \<in> set (recipe_ingredients d))})"
  proof
    assume h: "plain_ids iids \<and> query_params req ''ingredients'' = Some (id_list iids) \<and>
     \<not> truthy (query_params req ''tags'')"
    then have "well_formed py (query_params req ''tags'')"
      "well_formed py (query_params req ''ingredients'')"
      by (simp_all add: well_formed_id_list not_truthy_admits)
    from recipe_list_admitted [OF assms this, of ser im d]
    show "\<exists>rs. recipe_view py ser im d req List = Inr (Response 200 (Recipes rs), d) \<and>
             distinct rs \<and>
             set rs = {r \<in> set (recipes d). r_user r = u \<and>
                         (\<exists>i \<in> set iids. (r_id r, int i) \<in> set (recipe_ingredients d))}"
      using h by (simp add: admits_id_list not_truthy_admits)
  qed
  have 3: "plain_ids tids \<and> query_params req ''tags'' = Some (id_list tids) \<and>
     plain_ids iids \<and> query_params req ''ingredients'' = Some (id_list iids) \<longrightarrow>
       (\<exists>rs. recipe_view py ser im d req List = Inr (Response 200 (Recipes rs), d) \<and>
             distinct rs \<and>
             set rs = {r \<in> set (recipes d). r_user r = u \<and>
                         (\<exists>t \<in> set tids. (r_id r, int t) \<in> set (recipe_tags d)) \<and>
                         (\<exists>i \<in> set iids. (r_id r, int i) \<in> set (recipe_ingredients d))})"
  proof
    assume h: "plain_ids tids \<and> query_params req ''tags'' = Some (id_list tids) \<and>
     plain_ids iids \<and> query_params req ''ingredients'' = Some (id_list iids)"
    then have "well_formed py (query_params req ''tags'')"
      "well_formed py (query_params req ''ingredients'')"
      by (simp_all add: well_formed_id_list)
    from recipe_list_admitted [OF assms this, of ser im d]
    show "\<exists>rs. recipe_view py ser im d req List = Inr (Response 200 (Recipes rs), d) \<and>
             distinct rs \<and>
             set rs = {r \<in> set (recipes d). r_user r = u \<and>
                         (\<exists>t \<in> set tids. (r_id r, int t) \<in> set (recipe_tags d)) \<and>
                         (\<exists>i \<in> set iids. (r_id r, int i) \<in> set (recipe_ingredients d))}"
      using h by (simp add: admits_id_list)
  qed
  show ?thesis by (rule conjI [OF 1 conjI [OF 2 3]])
qed

text \<open>User 1 lists with \<open>tags=5,6\<close>: recipe 1 carries both tags and is returned once;
  with \<open>ingredients=3\<close> added, recipe 2 drops out.  In a store where recipe 1 carries
  tag 50 and recipe 2 tag 5, \<open>tags=50,7\<close> returns recipe 1 alone.\<close>

theorem recipe_list_filter_exact_witness:
  "(\<exists>rs. recipe_view example_python recipe_serializer (\<lambda>_. True) example_db
           (example_request 1 [(''tags'', ''5,6'')]) List =
           Inr (Response 200 (Recipes rs), example_db) \<and>
         distinct rs \<and>
         set rs = {r \<in> set (recipes example_db). r_user r = 1 \<and>
                     (\<exists>t \<in> set [5, 6]. (r_id r, int t) \<in> set (recipe_tags example_db))}) \<and>
   recipe_view example_python recipe_serializer (\<lambda>_. True) example_db
     (example_request 1 [(''tags'', ''5,6'')]) List =
     Inr (Response 200 (Recipes [example_recipe 2 1, example_recipe 1 1]), example_db) \<and>
   recipe_view example_python recipe_serializer (\<lambda>_. True) example_db
     (example_request 1 [(''tags'', ''5,6''), (''ingredients'', ''3'')]) List =
     Inr (Response 200 (Recipes [example_recipe 1 1]), example_db) \<and>
   recipe_view example_python recipe_serializer (\<lambda>_. True)
     (example_db\<lparr>recipe_tags := [(1, 50), (2, 5)]\<rparr>)
     (example_request 1 [(''tags'', ''50,7'')]) List =
     Inr (Response 200 (Recipes [example_recipe 1 1]),
          example_db\<lparr>recipe_tags := [(1, 50), (2, 5)]\<rparr>)"
proof -
  let ?req = "example_request 1 [(''tags'', ''5,6'')]"
  have 1: "req_user ?req = Some 1" by code_simp
  have 2: "plain_ids [5, 6] \<and> query_params ?req ''tags'' = Some (id_list [5, 6]) \<and>
     \<not> truthy (query_params ?req ''ingredients'')"
    by code_simp
  have a: "\<exists>rs. recipe_view example_python recipe_serializer (\<lambda>_. True) example_db ?req List =
           Inr (Response 200 (Recipes rs), example_db) \<and>
         distinct rs \<and>
         set rs = {r \<in> set (recipes example_db). r_user r = 1 \<and>
                     (\<exists>t \<in> set [5, 6]. (r_id r, int t) \<in> set (recipe_tags example_db))}"
    using recipe_list_filter_exact
      [OF 1, where tids = "[5, 6]" and py = example_python and ser = recipe_serializer
         and im = "\<lambda>_. True" and d = example_db, THEN conjunct1, THEN mp, OF 2] .
  have b: "recipe_view example_python recipe_serializer (\<lambda>_. True) example_db ?req List =
     Inr (Response 200 (Recipes [example_recipe 2 1, example_recipe 1 1]), example_db)"
    by code_simp
  have c: "recipe_view example_python recipe_serializer (\<lambda>_. True) example_db
     (example_request 1 [(''tags'', ''5,6''), (''ingredients'', ''3'')]) List =
     Inr (Response 200 (Recipes [example_recipe 1 1]), example_db)"
    by code_simp
  have d: "recipe_view example_python recipe_serializer (\<lambda>_. True)
     (example_db\<lparr>recipe_tags := [(1, 50), (2, 5)]\<rparr>)
     (example_request 1 [(''tags'', ''50,7'')]) List =
     Inr (Response 200 (Recipes [example_recipe 1 1]),
          example_db\<lparr>recipe_tags := [(1, 50), (2, 5)]\<rparr>)"
    by code_simp
  show ?thesis by (rule conjI [OF a conjI [OF b conjI [OF c d]]])
qed

section \<open>Order of the recipe list\<close>

lemma strictly_descending_distinct:
  "descending k xs \<Longrightarrow> distinct (map k xs) \<Longrightarrow> strictly_descending k xs"
  unfolding descending_def strictly_descending_def
  by (induction xs) (auto simp: less_le image_iff)

lemma get_queryset_strictly_descending:
  assumes "wf_db d" and "get_queryset py d u qp = Inr rs"
  shows "strictly_descending r_id rs"
proof -
  have rs: "distinct rs" "descending r_id rs" "set rs \<subseteq> set (recipes d)"
    using get_queryset_Inr [OF assms(2)] by auto
  have "inj_on r_id (set (recipes d))"
    using assms(1) by (simp add: wf_db_def pk_ok_def distinct_map)
  then have "inj_on r_id (set rs)" using rs(3) by (rule inj_on_subset)
  then have "distinct (map r_id rs)" using rs(1) by (simp add: distinct_map)
  then show ?thesis using rs(2) by (simp add: strictly_descending_distinct)
qed

lemma insort_key_snoc:
  "k x \<le> k y \<Longrightarrow> insort_key k x (zs @ [y]) = insort_key k x zs @ [y]"
  by (induction zs) auto

lemma foldr_insort_key_snoc:
  "\<forall>x \<in> set xs. k x \<le> k y \<Longrightarrow>
   foldr (insort_key k) xs [y] = foldr (insort_key k) xs [] @ [y]"
  by (induction xs) (auto simp: insort_key_snoc)

lemma sort_key_snoc:
  "\<forall>x \<in> set xs. k x \<le> k y \<Longrightarrow> sort_key k (xs @ [y]) = sort_key k xs @ [y]"
  by (simp add: sort_key_def foldr_insort_key_snoc)

lemma insert_recipe_fresh:
  assumes "wf_db d"
  shows "\<forall>x \<in> set (recipes d). r_id x < r_id (snd (insert_recipe r d))"
  using assms by (auto simp: insert_recipe_def Let_def wf_db_def pk_ok_def list_all_iff)

lemma wf_insert_recipe: "wf_db d \<Longrightarrow> wf_db (fst (insert_recipe r d))"
  by (auto simp: insert_recipe_def Let_def wf_db_def pk_ok_def list_all_iff)

lemma get_queryset_no_params:
  "get_queryset py d u Map.empty =
     Inr (remdups (rev (sort_key r_id (filter (\<lambda>r. r_user r = u) (recipes d)))))"
  by (simp add: get_queryset_def truthy_def Let_def distinct_rows_def order_by_desc_def)

lemma get_queryset_insert_recipe:
  assumes "wf_db d" and "r_user r = u" and "get_queryset py d u Map.empty = Inr rs"
  shows "get_queryset py (fst (insert_recipe r d)) u Map.empty =
           Inr (snd (insert_recipe r d) # rs)"
proof -
  let ?new = "r\<lparr>r_id := recipe_seq d\<rparr>"
  let ?own = "filter (\<lambda>x. r_user x = u) (recipes d)"
  have below: "\<forall>x \<in> set ?own. r_id x < r_id ?new"
    using assms(1) by (auto simp: wf_db_def pk_ok_def list_all_iff)
  then have "sort_key r_id (?own @ [?new]) = sort_key r_id ?own @ [?new]"
    by (intro sort_key_snoc) auto
  moreover have "?new \<notin> set (rev (sort_key r_id ?own))"
    using below by auto
  ultimately have "remdups (rev (sort_key r_id (?own @ [?new]))) =
      ?new # remdups (rev (sort_key r_id ?own))"
    by simp
  moreover have "rs = remdups (rev (sort_key r_id ?own))"
    using assms(3) by (simp add: get_queryset_no_params)
  ultimately show ?thesis
    using assms(2) by (simp add: get_queryset_no_params insert_recipe_def Let_def)
qed

text \<open>
  Claim C7.  Whenever a recipe-list request is answered, and it is whenever its filter
  parameters are well formed, the rows come in strictly descending order of id.  A recipe
  inserted into the store takes an id above every
  stored one, so it is created later than all of them, and in the unfiltered list of its
  owner it stands first, before the recipes that were there.
\<close>

theorem recipe_list_most_recent_first:
  assumes "wf_db d" and "req_user req = Some u"
  shows "(\<forall>resp d'. recipe_view py ser im d req List = Inr (resp, d')
            \<longrightarrow> (\<exists>rs. resp = Response 200 (Recipes rs) \<and> strictly_descending r_id rs)) \<and>
         (well_formed py (query_params req ''tags'') \<and>
          well_formed py (query_params req ''ingredients'')
            \<longrightarrow> (\<exists>rs. recipe_view py ser im d req List = Inr (Response 200 (Recipes rs), d))) \<and>
         (\<forall>x \<in> set (recipes d). r_id x < r_id (snd (insert_recipe r d))) \<and>
         wf_db (fst (insert_recipe r d)) \<and>
         (r_user r = u \<longrightarrow>
            (\<exists>rs. recipe_view py ser im d (req\<lparr>query_params := Map.empty\<rparr>) List =
                    Inr (Response 200 (Recipes rs), d) \<and>
                  recipe_view py ser im (fst (insert_recipe r d))
                      (req\<lparr>query_params := Map.empty\<rparr>) List =
                    Inr (Response 200 (Recipes (snd (insert_recipe r d) # rs)),
                         fst (insert_recipe r d))))"
proof (intro conjI allI impI)
  fix resp d'
  assume "recipe_view py ser im d req List = Inr (resp, d')"
  then show "\<exists>rs. resp = Response 200 (Recipes rs) \<and> strictly_descending r_id rs"
    using get_queryset_strictly_descending [OF assms(1), of py u "query_params req"]
    by (auto simp: recipe_view_list [OF assms(2)] split: sum.splits)
next
  assume "well_formed py (query_params req ''tags'') \<and>
          well_formed py (query_params req ''ingredients'')"
  then show "\<exists>rs. recipe_view py ser im d req List = Inr (Response 200 (Recipes rs), d)"
    using get_queryset_well_formed [of py "query_params req" d u]
    by (auto simp: recipe_view_list [OF assms(2)])
next
  show "\<forall>x \<in> set (recipes d). r_id x < r_id (snd (insert_recipe r d))"
    using assms(1) by (rule insert_recipe_fresh)
next
  show "wf_db (fst (insert_recipe r d))"
    using assms(1) by (rule wf_insert_recipe)
next
  assume own: "r_user r = u"
  let ?req = "req\<lparr>query_params := Map.empty\<rparr>"
  have user: "req_user ?req = Some u" using assms(2) by simp
  obtain rs where rs: "get_queryset py d u Map.empty = Inr rs"
    by (simp add: get_queryset_no_params)
  have "recipe_view py ser im d ?req List = Inr (Response 200 (Recipes rs), d)"
    by (simp add: recipe_view_list [OF user] rs)
  moreover have "recipe_view py ser im (fst (insert_recipe r d)) ?req List =
      Inr (Response 200 (Recipes (snd (insert_recipe r d) # rs)), fst (insert_recipe r d))"
    by (simp add: recipe_view_list [OF user] get_queryset_insert_recipe [OF assms(1) own rs])
  ultimately show "\<exists>rs. recipe_view py ser im d ?req List = Inr (Response 200 (Recipes rs), d) \<and>
      recipe_view py ser im (fst (insert_recipe r d)) ?req List =
        Inr (Response 200 (Recipes (snd (insert_recipe r d) # rs)), fst (insert_recipe r d))"
    by blast
qed

text \<open>In the example store user 1 lists recipe 2 before recipe 1, and a recipe created
  now gets id 4.\<close>

theorem recipe_list_most_recent_first_witness:
  "wf_db example_db \<and>
   r_id (snd (insert_recipe (example_recipe 0 1) example_db)) = 4 \<and>
   wf_db (fst (insert_recipe (example_recipe 0 1) example_db)) \<and>
   recipe_view example_python recipe_serializer (\<lambda>_. True) example_db (example_request 1 []) List =
     Inr (Response 200 (Recipes [example_recipe 2 1, example_recipe 1 1]), example_db)"
proof -
  have 1: "wf_db example_db" by code_simp
  have 2: "req_user (example_request 1 []) = Some 1" by code_simp
  have "wf_db (fst (insert_recipe (example_recipe 0 1) example_db))"
    using recipe_list_most_recent_first
      [OF 1 2, of example_python recipe_serializer "\<lambda>_. True" "example_recipe 0 1"]
    by blast
  moreover have "r_id (snd (insert_recipe (example_recipe 0 1) example_db)) = 4"
    by code_simp
  moreover have
    "recipe_view example_python recipe_serializer (\<lambda>_. True) example_db (example_request 1 []) List =
       Inr (Response 200 (Recipes [example_recipe 2 1, example_recipe 1 1]), example_db)"
    by code_simp
  ultimately show ?thesis using 1 by blast
qed

section \<open>Listing tags and ingredients\<close>












section \<open>Requests across users\<close>















section \<open>Uploading an image\<close>

lemma map_r_id_save:
  "r_id r' = pk \<Longrightarrow> map r_id (map (\<lambda>x. if r_id x = pk then r' else x) rows) = map r_id rows"
  by (induction rows) auto

lemma wf_save_recipe:
  assumes "wf_db d"
  shows "wf_db (save_recipe r' d)"
proof -
  let ?rows = "map (\<lambda>x. if r_id x = r_id r' then r' else x) (recipes d)"
  have ids: "map r_id ?rows = map r_id (recipes d)" by (rule map_r_id_save) simp
  have "list_all (\<lambda>x. r_id x < recipe_seq d) ?rows =
          (\<forall>k \<in> set (map r_id ?rows). k < recipe_seq d)"
    unfolding list_all_iff set_map by blast
  also have "\<dots> = list_all (\<lambda>x. r_id x < recipe_seq d) (recipes d)"
    unfolding ids list_all_iff set_map by blast
  finally have below: "list_all (\<lambda>x. r_id x < recipe_seq d) ?rows"
    using assms by (simp add: wf_db_def pk_ok_def)
  have dist: "distinct (map r_id ?rows)"
    unfolding ids using assms by (simp add: wf_db_def pk_ok_def)
  show ?thesis
    using assms below dist by (simp add: wf_db_def pk_ok_def save_recipe_def)
qed

lemma saved_row_stored:
  "r \<in> set (recipes d) \<Longrightarrow> r_id r' = r_id r \<Longrightarrow> r' \<in> set (recipes (save_recipe r' d))"
  by (force simp: save_recipe_def)

lemma saved_rows_image:
  "\<forall>x \<in> set (recipes (save_recipe r' d)). r_id x = r_id r' \<longrightarrow> x = r'"
  by (auto simp: save_recipe_def)

text \<open>
  Claim C6, as amended.  Take an authenticated upload-image request on a recipe of the
  requesting user whose filter parameters are well formed and admit the recipe (a request
  without \<open>tags\<close> and \<open>ingredients\<close> is one).  A payload that is not an image is
  answered with 400 and the store, so the recipe's image, stays as it was.  An image is
  answered with 200; the row of the recipe then holds the new payload in place of any
  earlier image, and retrieving the recipe returns it.
\<close>

theorem upload_image_outcomes:
  assumes "wf_db d" and "req_user req = Some u"
    and "r \<in> set (recipes d)" and "r_user r = u"
    and "well_formed py (query_params req ''tags'')"
    and "well_formed py (query_params req ''ingredients'')"
    and "admits py (recipe_tags d) (query_params req ''tags'') (r_id r)"
    and "admits py (recipe_ingredients d) (query_params req ''ingredients'') (r_id r)"
  shows
   "(\<not> im data \<longrightarrow>
       recipe_view py ser im d req (UploadImage (r_id r) data) = Inr (Response 400 Errors, d)) \<and>
    (im data \<longrightarrow>
       recipe_view py ser im d req (UploadImage (r_id r) data) =
         Inr (Response 200 (Detail (r\<lparr>r_image := Some data\<rparr>)),
              save_recipe (r\<lparr>r_image := Some data\<rparr>) d) \<and>
       (\<forall>x \<in> set (recipes (save_recipe (r\<lparr>r_image := Some data\<rparr>) d)).
          r_id x = r_id r \<longrightarrow> r_image x = Some data) \<and>
       recipe_view py ser im (save_recipe (r\<lparr>r_image := Some data\<rparr>) d) req (Retrieve (r_id r)) =
         Inr (Response 200 (Detail (r\<lparr>r_image := Some data\<rparr>)),
              save_recipe (r\<lparr>r_image := Some data\<rparr>) d))"
proof -
  let ?qp = "query_params req"
  let ?r' = "r\<lparr>r_image := Some data\<rparr>"
  let ?d' = "save_recipe ?r' d"
  have obj: "get_object py d u ?qp (r_id r) = Inr (Some r)"
    using assms(1,3,4,5,6,7,8) by (rule get_object_resolves)
  have up: "recipe_view py ser im d req (UploadImage (r_id r) data) =
      (if im data then Inr (Response 200 (Detail ?r'), ?d') else Inr (Response 400 Errors, d))"
    by (simp add: recipe_view_def assms(2) upload_image_def obj Let_def)
  have links: "recipe_tags ?d' = recipe_tags d" "recipe_ingredients ?d' = recipe_ingredients d"
    by (simp_all add: save_recipe_def)
  have "get_object py ?d' u ?qp (r_id ?r') = Inr (Some ?r')"
  proof (rule get_object_resolves)
    show "wf_db ?d'" using assms(1) by (rule wf_save_recipe)
    show "?r' \<in> set (recipes ?d')" using assms(3) by (rule saved_row_stored) simp
    show "r_user ?r' = u" using assms(4) by simp
    show "well_formed py (?qp ''tags'')" "well_formed py (?qp ''ingredients'')" by fact+
    show "admits py (recipe_tags ?d') (?qp ''tags'') (r_id ?r')"
      using assms(7) by (simp add: links)
    show "admits py (recipe_ingredients ?d') (?qp ''ingredients'') (r_id ?r')"
      using assms(8) by (simp add: links)
  qed
  then have get: "recipe_view py ser im ?d' req (Retrieve (r_id r)) =
      Inr (Response 200 (Detail ?r'), ?d')"
    by (simp add: recipe_view_def assms(2))
  have img: "\<forall>x \<in> set (recipes ?d'). r_id x = r_id r \<longrightarrow> r_image x = Some data"
    using saved_rows_image [of ?r' d] by auto
  show ?thesis using up get img by simp
qed

text \<open>User 1 uploads to recipe 1, with a check that accepts the payload \<open>JPEG\<close>
  only.\<close>

theorem upload_image_outcomes_witness:
  "recipe_view example_python recipe_serializer (\<lambda>s. s = ''JPEG'') example_db (example_request 1 [])
     (UploadImage 1 ''notanimage'') = Inr (Response 400 Errors, example_db) \<and>
   recipe_view example_python recipe_serializer (\<lambda>s. s = ''JPEG'') example_db (example_request 1 [])
     (UploadImage 1 ''JPEG'') =
     Inr (Response 200 (Detail ((example_recipe 1 1)\<lparr>r_image := Some ''JPEG''\<rparr>)),
          save_recipe ((example_recipe 1 1)\<lparr>r_image := Some ''JPEG''\<rparr>) example_db)"
proof -
  let ?req = "example_request 1 []"
  let ?r = "example_recipe 1 1"
  let ?im = "\<lambda>s. s = ''JPEG''"
  have 1: "wf_db example_db" by code_simp
  have 2: "req_user ?req = Some 1" by code_simp
  have 3: "?r \<in> set (recipes example_db)" by code_simp
  have 4: "r_user ?r = 1" by code_simp
  have 5: "well_formed example_python (query_params ?req ''tags'')" by code_simp
  have 6: "well_formed example_python (query_params ?req ''ingredients'')" by code_simp
  have 7: "admits example_python (recipe_tags example_db) (query_params ?req ''tags'') (r_id ?r)"
    by code_simp
  have 8: "admits example_python (recipe_ingredients example_db) (query_params ?req ''ingredients'') (r_id ?r)"
    by code_simp
  have id: "r_id ?r = 1" by code_simp
  note th = upload_image_outcomes [OF 1 2 3 4 5 6 7 8, where ser = recipe_serializer and im = ?im]
  have bad: "\<not> ?im ''notanimage''" by simp
  have good: "?im ''JPEG''" by simp
  have a: "recipe_view example_python recipe_serializer ?im example_db ?req (UploadImage 1 ''notanimage'') =
      Inr (Response 400 Errors, example_db)"
    using th [where data = "''notanimage''", THEN conjunct1, THEN mp, OF bad]
    unfolding id .
  have b: "recipe_view example_python recipe_serializer ?im example_db ?req (UploadImage 1 ''JPEG'') =
      Inr (Response 200 (Detail (?r\<lparr>r_image := Some ''JPEG''\<rparr>)),
           save_recipe (?r\<lparr>r_image := Some ''JPEG''\<rparr>) example_db)"
    using th [where data = "''JPEG''", THEN conjunct2, THEN mp, OF good, THEN conjunct1]
    unfolding id .
  show ?thesis by (rule conjI [OF a b])
qed

text \<open>
  The claim as stated covers every upload-image request on a recipe of the user.  With
  \<open>tags=5\<close>, which recipe 2 does not carry, the upload to recipe 2 is answered with 404
  whether the payload is an image or not.
\<close>

theorem upload_image_filtered_out:
  "example_recipe 2 1 \<in> set (recipes example_db) \<and>
   recipe_view example_python recipe_serializer (\<lambda>_. True) example_db
     (example_request 1 [(''tags'', ''5'')]) (UploadImage 2 ''JPEG'') =
     Inr (Response 404 Errors, example_db) \<and>
   recipe_view example_python recipe_serializer (\<lambda>_. False) example_db
     (example_request 1 [(''tags'', ''5'')]) (UploadImage 2 ''notanimage'') =
     Inr (Response 404 Errors, example_db)"
  by code_simp

section \<open>Nested tags and ingredients\<close>











































section \<open>Registration\<close>

text \<open>
  Claim C4.  Registration with an email that already belongs to a stored user, as
  submitted or after normalisation, is answered with 400, and so is registration with a
  password shorter than the minimum length; in both cases the user store is unchanged, so
  no user is created.  Every registration ends in one of two ways: 400 with the store
  unchanged, or 201 with a body of exactly the fields \<open>email\<close> and \<open>name\<close>, which has no
  \<open>password\<close> field and is determined by the email and the name alone, while the stored
  row holds the hash.  Stored emails stay unique.
\<close>

theorem registration_outcomes:
  "((\<exists>x \<in> set (users ad).
       u_email x = up_email p \<or> u_email x = normalize_email (up_email p)) \<longrightarrow>
      register min_length hash ad p = (UserResponse 400 [(''error'', ''invalid'')], ad)) \<and>
   (length (up_password p) < min_length \<longrightarrow>
      register min_length hash ad p = (UserResponse 400 [(''error'', ''invalid'')], ad)) \<and>
   (\<exists>status body ad'.
      register min_length hash ad p = (UserResponse status body, ad') \<and>
      (status = 400 \<and> ad' = ad \<or>
       status = 201 \<and>
       body = [(''email'', normalize_email (up_email p)), (''name'', up_name p)] \<and>
       ''password'' \<notin> fst ` set body \<and>
       min_length \<le> length (up_password p) \<and>
       (\<exists>x. users ad' = users ad @ [x] \<and> u_email x = normalize_email (up_email p) \<and>
            u_password x = hash (up_password p)))) \<and>
   (distinct (map u_email (users ad)) \<longrightarrow>
      distinct (map u_email (users (snd (register min_length hash ad p)))))"
proof -
  have 1: "(\<exists>x \<in> set (users ad).
       u_email x = up_email p \<or> u_email x = normalize_email (up_email p)) \<longrightarrow>
      register min_length hash ad p = (UserResponse 400 [(''error'', ''invalid'')], ad)"
    by (simp add: register_def email_taken_def)
  have 2: "length (up_password p) < min_length \<longrightarrow>
      register min_length hash ad p = (UserResponse 400 [(''error'', ''invalid'')], ad)"
    by (simp add: register_def)
  have 3: "\<exists>status body ad'.
      register min_length hash ad p = (UserResponse status body, ad') \<and>
      (status = 400 \<and> ad' = ad \<or>
       status = 201 \<and>
       body = [(''email'', normalize_email (up_email p)), (''name'', up_name p)] \<and>
       ''password'' \<notin> fst ` set body \<and>
       min_length \<le> length (up_password p) \<and>
       (\<exists>x. users ad' = users ad @ [x] \<and> u_email x = normalize_email (up_email p) \<and>
            u_password x = hash (up_password p)))"
    by (simp add: register_def Let_def)
  have 4: "distinct (map u_email (users ad)) \<longrightarrow>
      distinct (map u_email (users (snd (register min_length hash ad p))))"
    by (auto simp: register_def email_taken_def Let_def)
  show ?thesis by (rule conjI [OF 1 conjI [OF 2 conjI [OF 3 4]]])
qed

text \<open>The registrations of the user tests, with a minimum length of 5, and one with the
  stored address in another domain case.\<close>

theorem registration_outcomes_witness:
  "register 5 example_hash example_auth_db
     \<lparr>up_email = ''test@example.com'', up_password = ''test123'', up_name = ''Test Name II''\<rparr> =
     (UserResponse 400 [(''error'', ''invalid'')], example_auth_db) \<and>
   register 5 example_hash example_auth_db
     \<lparr>up_email = ''test@EXAMPLE.com'', up_password = ''test123'', up_name = ''Test Name II''\<rparr> =
     (UserResponse 400 [(''error'', ''invalid'')], example_auth_db) \<and>
   register 5 example_hash example_auth_db
     \<lparr>up_email = ''new@example.com'', up_password = ''a'', up_name = ''Test name''\<rparr> =
     (UserResponse 400 [(''error'', ''invalid'')], example_auth_db) \<and>
   fst (register 5 example_hash example_auth_db
          \<lparr>up_email = ''New@EXAMPLE.com'', up_password = ''test123'', up_name = ''Test name''\<rparr>) =
     UserResponse 201 [(''email'', ''New@example.com''), (''name'', ''Test name'')]"
proof -
  let ?p = "\<lparr>up_email = ''test@example.com'', up_password = ''test123'',
             up_name = ''Test Name II''\<rparr>"
  have used: "\<exists>x \<in> set (users example_auth_db).
      u_email x = up_email ?p \<or> u_email x = normalize_email (up_email ?p)"
    by code_simp
  have a: "register 5 example_hash example_auth_db ?p =
     (UserResponse 400 [(''error'', ''invalid'')], example_auth_db)"
    using registration_outcomes
      [where ad = example_auth_db and p = ?p and min_length = 5 and hash = example_hash,
       THEN conjunct1, THEN mp, OF used] .
  have b: "register 5 example_hash example_auth_db
     \<lparr>up_email = ''test@EXAMPLE.com'', up_password = ''test123'', up_name = ''Test Name II''\<rparr> =
     (UserResponse 400 [(''error'', ''invalid'')], example_auth_db)"
    by code_simp
  have c: "register 5 example_hash example_auth_db
     \<lparr>up_email = ''new@example.com'', up_password = ''a'', up_name = ''Test name''\<rparr> =
     (UserResponse 400 [(''error'', ''invalid'')], example_auth_db)"
    by code_simp
  have d: "fst (register 5 example_hash example_auth_db
          \<lparr>up_email = ''New@EXAMPLE.com'', up_password = ''test123'', up_name = ''Test name''\<rparr>) =
     UserResponse 201 [(''email'', ''New@example.com''), (''name'', ''Test name'')]"
    by code_simp
  show ?thesis by (rule conjI [OF a conjI [OF b conjI [OF c d]]])
qed

section \<open>Token issuance\<close>

lemma find_credentials:
  "(find (\<lambda>x. u_email x = email \<and> u_password x = hash password) (users ad) = None) =
   (\<not> credentials_match hash ad email password)"
  by (auto simp: credentials_match_def find_None_iff)

text \<open>
  Claim C5.  A token request whose email and password match no stored credential, a
  blank password included, is answered with the one bad-credentials response: status 400,
  a single generic message, no token, the same whichever of the two was wrong; the store
  is unchanged.  A matching pair is answered with 200 and a token bound to a user with
  that email.
\<close>

theorem token_outcomes:
  "(\<not> credentials_match hash ad email password \<longrightarrow>
      create_token hash new_key ad email password = (bad_credentials, ad)) \<and>
   bad_credentials =
     UserResponse 400
       [(''non_field_errors'', ''Unable to authenticate with provided credentials.'')] \<and>
   (credentials_match hash ad email password \<longrightarrow>
      (\<exists>key ad'. create_token hash new_key ad email password =
                   (UserResponse 200 [(''token'', key)], ad') \<and>
                 (\<exists>x \<in> set (users ad). u_email x = email \<and> (key, u_id x) \<in> set (tokens ad'))))"
proof -
  have 1: "\<not> credentials_match hash ad email password \<longrightarrow>
      create_token hash new_key ad email password = (bad_credentials, ad)"
  proof
    assume "\<not> credentials_match hash ad email password"
    then have "find (\<lambda>x. u_email x = email \<and> u_password x = hash password) (users ad) = None"
      by (simp add: find_credentials)
    then show "create_token hash new_key ad email password = (bad_credentials, ad)"
      by (simp add: create_token_def)
  qed
  have 2: "bad_credentials =
     UserResponse 400
       [(''non_field_errors'', ''Unable to authenticate with provided credentials.'')]"
    by (simp add: bad_credentials_def)
  have 3: "credentials_match hash ad email password \<longrightarrow>
      (\<exists>key ad'. create_token hash new_key ad email password =
                   (UserResponse 200 [(''token'', key)], ad') \<and>
                 (\<exists>x \<in> set (users ad). u_email x = email \<and> (key, u_id x) \<in> set (tokens ad')))"
  proof
    assume "credentials_match hash ad email password"
    then obtain x where
      x: "find (\<lambda>x. u_email x = email \<and> u_password x = hash password) (users ad) = Some x"
      using find_credentials [of email hash password ad] by auto
    then have xin: "x \<in> set (users ad)" "u_email x = email"
      by (auto simp: find_Some_iff)
    show "\<exists>key ad'. create_token hash new_key ad email password =
                   (UserResponse 200 [(''token'', key)], ad') \<and>
                 (\<exists>x \<in> set (users ad). u_email x = email \<and> (key, u_id x) \<in> set (tokens ad'))"
    proof (cases "find (\<lambda>t. snd t = u_id x) (tokens ad)")
      case None
      then have "create_token hash new_key ad email password =
          (UserResponse 200 [(''token'', new_key)], ad\<lparr>tokens := tokens ad @ [(new_key, u_id x)]\<rparr>)"
        by (simp add: create_token_def x)
      then show ?thesis using xin by force
    next
      case (Some t)
      then have t: "t \<in> set (tokens ad)" "snd t = u_id x"
        by (auto simp: find_Some_iff)
      have "create_token hash new_key ad email password =
          (UserResponse 200 [(''token'', fst t)], ad)"
        by (simp add: create_token_def x Some)
      moreover have "(fst t, u_id x) \<in> set (tokens ad)"
        using t by (metis prod.collapse)
      ultimately show ?thesis using xin by blast
    qed
  qed
  show ?thesis by (rule conjI [OF 1 conjI [OF 2 3]])
qed

text \<open>The token requests of the user tests: a wrong password, a blank password, the
  right password.\<close>

theorem token_outcomes_witness:
  "create_token example_hash ''K1'' example_auth_db ''test@example.com'' ''badpass'' =
     (bad_credentials, example_auth_db) \<and>
   create_token example_hash ''K1'' example_auth_db ''test@example.com'' [] =
     (bad_credentials, example_auth_db) \<and>
   create_token example_hash ''K1'' example_auth_db ''nobody@example.com'' ''goodpass'' =
     (bad_credentials, example_auth_db) \<and>
   create_token example_hash ''K1'' example_auth_db ''test@example.com'' ''goodpass'' =
     (UserResponse 200 [(''token'', ''K1'')], example_auth_db\<lparr>tokens := [(''K1'', 1)]\<rparr>)"
proof -
  have no: "\<not> credentials_match example_hash example_auth_db ''test@example.com'' ''badpass''"
    by code_simp
  have a: "create_token example_hash ''K1'' example_auth_db ''test@example.com'' ''badpass'' =
     (bad_credentials, example_auth_db)"
    using token_outcomes
      [where hash = example_hash and ad = example_auth_db and email = "''test@example.com''"
         and password = "''badpass''" and new_key = "''K1''", THEN conjunct1, THEN mp, OF no] .
  have b: "create_token example_hash ''K1'' example_auth_db ''test@example.com'' [] =
     (bad_credentials, example_auth_db)"
    by code_simp
  have c: "create_token example_hash ''K1'' example_auth_db ''nobody@example.com'' ''goodpass'' =
     (bad_credentials, example_auth_db)"
    by code_simp
  have d: "create_token example_hash ''K1'' example_auth_db ''test@example.com'' ''goodpass'' =
     (UserResponse 200 [(''token'', ''K1'')], example_auth_db\<lparr>tokens := [(''K1'', 1)]\<rparr>)"
    by code_simp
  show ?thesis by (rule conjI [OF a conjI [OF b conjI [OF c d]]])
qed

end
